theory Spec2Isabelle
  imports Complex_Main
begin

section \<open>Data model (types.ts)\<close>

text \<open>
  The enums \<^verbatim>\<open>Direction\<close> and \<^verbatim>\<open>GameStatus\<close> and the interface
  \<^verbatim>\<open>Coordinate\<close>. Grid coordinates and the score are JavaScript numbers that only
  ever hold integers, so they are \<open>int\<close>; frame timestamps and the products with
  \<^verbatim>\<open>Math.random()\<close> are doubles, each modelled as the \<open>real\<close> number it denotes.
\<close>

datatype Direction = UP | DOWN | LEFT | RIGHT

datatype GameStatus = IDLE | PLAYING | PAUSED | GAME_OVER

record Coordinate =
  x :: int
  y :: int

section \<open>The application state (App) and the scheduler's reference cell (GameBoard)\<close>

text \<open>
  The \<^verbatim>\<open>useState\<close> cells of \<^verbatim>\<open>App\<close> together with \<^verbatim>\<open>lastTimeRef\<close> of
  \<^verbatim>\<open>GameBoard\<close>. The log list is display only and is left out. \<^verbatim>\<open>speedRef\<close> is
  rewritten from the score by an effect after every render, so it is the function
  \<open>speedRef\<close> of the score below. A parameter that carries a prop named like a state
  cell has the prefix \<open>p\<close> (\<open>psnake\<close> for \<^verbatim>\<open>snake\<close>). Every handler runs on the event loop against the
  state of the latest render; a handler is modelled as the function from the state before
  it to the state after the setters it has called have been applied.

  \<^verbatim>\<open>handleMove\<close> is async and can be suspended at its await with the call
  \<^verbatim>\<open>setSnake(newSnake)\<close> still ahead of it. \<open>pendingSetSnake\<close> holds the \<^verbatim>\<open>newSnake\<close> of
  every handler that is suspended there, oldest first.
\<close>

record game =
  status :: GameStatus
  snake :: "Coordinate list"
  food :: Coordinate
  direction :: Direction
  nextDirection :: Direction
  score :: int
  highScore :: int
  lastTimeRef :: real
  pendingSetSnake :: "Coordinate list list"

definition BOARD_WIDTH :: int where
  "BOARD_WIDTH = 25"

definition BOARD_HEIGHT :: int where
  "BOARD_HEIGHT = 25"

definition INITIAL_SNAKE :: "Coordinate list" where
  "INITIAL_SNAKE = [\<lparr>x = 10, y = 10\<rparr>, \<lparr>x = 10, y = 11\<rparr>, \<lparr>x = 10, y = 12\<rparr>]"

text \<open>The state of the first render: the initial values of the \<^verbatim>\<open>useState\<close> cells.\<close>

definition initialGame :: game where
  "initialGame =
     \<lparr>status = IDLE, snake = INITIAL_SNAKE, food = \<lparr>x = 5, y = 5\<rparr>, direction = UP,
      nextDirection = UP, score = 0, highScore = 0, lastTimeRef = 0, pendingSetSnake = []\<rparr>"

section \<open>Food placement (getRandomPosition)\<close>

text \<open>
  The random source of one call of \<^verbatim>\<open>getRandomPosition\<close> is \<open>rnd\<close>: \<open>rnd i w\<close> is the
  double that \<^verbatim>\<open>Math.random() * w\<close> evaluates to at the call's \<open>i\<close>-th use of
  \<^verbatim>\<open>Math.random()\<close>. The product is rounded by the machine, so it is taken as it
  comes and not recomputed from the random value; \<^verbatim>\<open>Math.floor\<close> of a double is exact.
  Iteration \<open>k\<close> of the do-while loop makes use \<open>2 * k\<close> for the column and use
  \<open>2 * k + 1\<close> for the row. The loop has no bound in the source, so it is a partial
  function: \<open>None\<close> is the loop that never leaves.
\<close>

type_synonym random = "nat \<Rightarrow> int \<Rightarrow> real"

definition samePosition :: "Coordinate \<Rightarrow> Coordinate \<Rightarrow> bool" where
  "samePosition a b = (x a = x b \<and> y a = y b)"

definition randomDraw :: "random \<Rightarrow> nat \<Rightarrow> int \<Rightarrow> int \<Rightarrow> Coordinate" where
  "randomDraw rnd k width height =
     \<lparr>x = \<lfloor>rnd (2 * k) width\<rfloor>, y = \<lfloor>rnd (2 * k + 1) height\<rfloor>\<rparr>"

partial_function (option) getRandomPosition_from ::
  "random \<Rightarrow> nat \<Rightarrow> int \<Rightarrow> int \<Rightarrow> Coordinate list \<Rightarrow> Coordinate option" where
  "getRandomPosition_from rnd k width height psnake =
     (let newPos = randomDraw rnd k width height;
          isCollision = list_ex (\<lambda>segment. samePosition segment newPos) psnake
      in if isCollision then getRandomPosition_from rnd (k + 1) width height psnake
         else Some newPos)"

definition getRandomPosition :: "random \<Rightarrow> int \<Rightarrow> int \<Rightarrow> Coordinate list \<Rightarrow> Coordinate option" where
  "getRandomPosition rnd width height psnake = getRandomPosition_from rnd 0 width height psnake"

section \<open>The tick (GameBoard)\<close>

text \<open>The effect on \<^verbatim>\<open>score\<close> that keeps \<^verbatim>\<open>speedRef.current\<close> up to date.\<close>

definition speedRef :: "int \<Rightarrow> int" where
  "speedRef pscore =
     (let baseSpeed = 150;
          speedDecay = min 100 (pscore * 2)
      in max 50 (baseSpeed - speedDecay))"

text \<open>The \<^verbatim>\<open>switch\<close> on the direction that moves the copy of the head.\<close>

fun moveHead :: "Direction \<Rightarrow> Coordinate \<Rightarrow> Coordinate" where
  "moveHead UP head = head\<lparr>y := y head - 1\<rparr>"
| "moveHead DOWN head = head\<lparr>y := y head + 1\<rparr>"
| "moveHead LEFT head = head\<lparr>x := x head - 1\<rparr>"
| "moveHead RIGHT head = head\<lparr>x := x head + 1\<rparr>"

text \<open>
  The self-collision loop
  \<^verbatim>\<open>for (let i = 0; i < snake.length - 1; i++) if (newHead is snake[i]) { onGameOver(); return; }\<close>
  from index \<open>i\<close> on; \<open>True\<close> when it calls \<^verbatim>\<open>onGameOver\<close>.
\<close>

function hitsBody :: "Coordinate \<Rightarrow> Coordinate list \<Rightarrow> nat \<Rightarrow> bool" where
  "hitsBody newHead psnake i =
     (if int i < int (length psnake) - 1
      then (if samePosition newHead (psnake ! i) then True else hitsBody newHead psnake (i + 1))
      else False)"
  by pat_completeness auto
termination
  by (relation "measure (\<lambda>(newHead, psnake, i). length psnake - i)") auto

text \<open>
  What one call of \<^verbatim>\<open>gameLoop\<close> does with the game: nothing because the status is
  not PLAYING, nothing because the tick is not due, a call of \<^verbatim>\<open>onGameOver\<close>, or a
  call of \<^verbatim>\<open>onMove\<close>. With an empty snake \<^verbatim>\<open>snake[0]\<close> is undefined, every
  comparison on the fields of the new head is false, and \<^verbatim>\<open>onMove\<close> is called with
  a head that is no coordinate and \<^verbatim>\<open>grew = false\<close>: that is \<open>OnMoveHeadless\<close>.
\<close>

datatype call = NotPlaying | NotDue | OnGameOver | OnMove Coordinate bool | OnMoveHeadless

text \<open>
  \<^verbatim>\<open>gameLoop\<close> from \<^verbatim>\<open>if (deltaTime > speedRef.current)\<close> on, as a function of the
  \<^verbatim>\<open>deltaTime\<close> that it has computed.
\<close>

definition gameLoop_tick ::
  "real \<Rightarrow> int \<Rightarrow> Coordinate list \<Rightarrow> Coordinate \<Rightarrow> Direction \<Rightarrow> int \<Rightarrow> int \<Rightarrow> call" where
  "gameLoop_tick deltaTime pscore psnake pfood pdirection width height =
     (if deltaTime > of_int (speedRef pscore) then
        (case psnake of
           [] \<Rightarrow> OnMoveHeadless
         | head # rest \<Rightarrow>
             let newHead = moveHead pdirection head in
             if x newHead < 0 \<or> x newHead \<ge> width \<or> y newHead < 0 \<or> y newHead \<ge> height
             then OnGameOver
             else if hitsBody newHead psnake 0 then OnGameOver
             else let grew = (x newHead = x pfood \<and> y newHead = y pfood)
                  in OnMove newHead grew)
      else NotDue)"

text \<open>
  \<^verbatim>\<open>deltaTime = time - lastTimeRef.current\<close> is a difference of doubles. The model takes
  the exact difference: the two agree wherever the exact difference is a double, and
  the double difference exceeds an interval (a whole number of milliseconds) only if the
  exact one does.
\<close>

definition gameLoop ::
  "GameStatus \<Rightarrow> int \<Rightarrow> Coordinate list \<Rightarrow> Coordinate \<Rightarrow> Direction \<Rightarrow> int \<Rightarrow> int \<Rightarrow> real \<Rightarrow> real \<Rightarrow> call" where
  "gameLoop pstatus pscore psnake pfood pdirection width height lastTime time =
     (if pstatus \<noteq> PLAYING then NotPlaying
      else let deltaTime = time - lastTime
           in gameLoop_tick deltaTime pscore psnake pfood pdirection width height)"

section \<open>The handlers of App\<close>

definition pauseGame :: "game \<Rightarrow> game" where
  "pauseGame st = st\<lparr>status := PAUSED\<rparr>"

definition resumeGame :: "game \<Rightarrow> game" where
  "resumeGame st = st\<lparr>status := PLAYING\<rparr>"

definition gameOver :: "game \<Rightarrow> game" where
  "gameOver st =
     (let st1 = st\<lparr>status := GAME_OVER\<rparr>
      in if score st > highScore st then st1\<lparr>highScore := score st\<rparr> else st1)"

definition startGame :: "random \<Rightarrow> game \<Rightarrow> game option" where
  "startGame rnd st =
     (case getRandomPosition rnd BOARD_WIDTH BOARD_HEIGHT INITIAL_SNAKE of
        None \<Rightarrow> None
      | Some newFood \<Rightarrow>
          Some (st\<lparr>snake := INITIAL_SNAKE, direction := UP, nextDirection := UP, score := 0,
                   status := PLAYING, food := newFood\<rparr>))"

text \<open>
  \<^verbatim>\<open>handleMove\<close> is an async function, called from \<^verbatim>\<open>gameLoop\<close> as \<^verbatim>\<open>onMove\<close>. It runs
  up to its first await inside the frame. When the new score is a multiple of 5 it awaits
  \<^verbatim>\<open>generateSystemMessage\<close>, a network call, after \<^verbatim>\<open>setScore\<close> and \<^verbatim>\<open>setFood\<close> and
  before \<^verbatim>\<open>setSnake(newSnake)\<close>: the frame ends with the snake as it was, and the
  handler waits with its \<^verbatim>\<open>newSnake\<close>. On every other path it reaches
  \<^verbatim>\<open>setSnake(newSnake)\<close> inside the frame. \<^verbatim>\<open>newSnake.pop()\<close> drops the last element.
\<close>

definition handleMove :: "random \<Rightarrow> Coordinate \<Rightarrow> bool \<Rightarrow> game \<Rightarrow> game option" where
  "handleMove rnd newHead grew st =
     (let st1 = st\<lparr>direction := nextDirection st\<rparr>;
          newSnake = newHead # snake st
      in if grew then
           (let newScore = score st + 1 in
            case getRandomPosition rnd BOARD_WIDTH BOARD_HEIGHT newSnake of
              None \<Rightarrow> None
            | Some newFood \<Rightarrow>
                let st2 = st1\<lparr>score := newScore, food := newFood\<rparr>
                in if newScore mod 5 = 0
                   then Some (st2\<lparr>pendingSetSnake := pendingSetSnake st @ [newSnake]\<rparr>)
                   else Some (st2\<lparr>snake := newSnake\<rparr>))
         else Some (st1\<lparr>snake := butlast newSnake\<rparr>))"

text \<open>
  The message of the suspended handler at position \<open>i\<close> arrives
  (\<^verbatim>\<open>generateSystemMessage\<close> resolves, with the text of the network or a fallback): the
  handler logs it and calls \<^verbatim>\<open>setSnake\<close> with the \<^verbatim>\<open>newSnake\<close> it was suspended with.
\<close>

definition handleMove_resume :: "nat \<Rightarrow> game \<Rightarrow> game" where
  "handleMove_resume i st =
     (if i < length (pendingSetSnake st)
      then st\<lparr>snake := pendingSetSnake st ! i,
              pendingSetSnake := take i (pendingSetSnake st) @ drop (Suc i) (pendingSetSnake st)\<rparr>
      else st)"

text \<open>
  One animation frame at timestamp \<open>time\<close>: \<^verbatim>\<open>gameLoop\<close> on the props that \<^verbatim>\<open>App\<close>
  passes (\<^verbatim>\<open>direction={nextDirection}\<close>, the board constants) and the callback it
  calls; after \<^verbatim>\<open>onMove\<close> returns, \<^verbatim>\<open>lastTimeRef.current = time\<close>.
\<close>

definition gameLoop_call :: "game \<Rightarrow> real \<Rightarrow> call" where
  "gameLoop_call st time =
     gameLoop (status st) (score st) (snake st) (food st) (nextDirection st)
       BOARD_WIDTH BOARD_HEIGHT (lastTimeRef st) time"

definition frame :: "random \<Rightarrow> real \<Rightarrow> game \<Rightarrow> game option" where
  "frame rnd time st =
     (case gameLoop_call st time of
        NotPlaying \<Rightarrow> Some st
      | NotDue \<Rightarrow> Some st
      | OnGameOver \<Rightarrow> Some (gameOver st)
      | OnMove newHead grew \<Rightarrow>
          (case handleMove rnd newHead grew st of
             None \<Rightarrow> None
           | Some st' \<Rightarrow> Some (st'\<lparr>lastTimeRef := time\<rparr>))
      | OnMoveHeadless \<Rightarrow>
          Some (st\<lparr>direction := nextDirection st, snake := [], lastTimeRef := time\<rparr>))"

text \<open>The keyboard handler; \<^verbatim>\<open>e.key\<close> is a string.\<close>

definition handleKeyDown :: "random \<Rightarrow> string \<Rightarrow> game \<Rightarrow> game option" where
  "handleKeyDown rnd key st =
     (if key = ''ArrowUp'' \<or> key = ''w'' \<or> key = ''W'' then
        Some (if direction st \<noteq> DOWN then st\<lparr>nextDirection := UP\<rparr> else st)
      else if key = ''ArrowDown'' \<or> key = ''s'' \<or> key = ''S'' then
        Some (if direction st \<noteq> UP then st\<lparr>nextDirection := DOWN\<rparr> else st)
      else if key = ''ArrowLeft'' \<or> key = ''a'' \<or> key = ''A'' then
        Some (if direction st \<noteq> RIGHT then st\<lparr>nextDirection := LEFT\<rparr> else st)
      else if key = ''ArrowRight'' \<or> key = ''d'' \<or> key = ''D'' then
        Some (if direction st \<noteq> LEFT then st\<lparr>nextDirection := RIGHT\<rparr> else st)
      else if key = '' '' \<or> key = ''Enter'' then
        (if status st = IDLE \<or> status st = GAME_OVER then startGame rnd st
         else if status st = PLAYING then Some (pauseGame st)
         else if status st = PAUSED then Some (resumeGame st)
         else Some st)
      else Some st)"

text \<open>
  The events of the page: keys, animation frames, the buttons of the control panel and
  the arrival of a status message. \<^verbatim>\<open>App\<close> renders Initialize while the status is
  IDLE or GAME_OVER; otherwise Halt (while PLAYING) or Resume, and Abort. A button that
  is not rendered cannot be clicked: its click leaves the state as it is.
\<close>

datatype event = KeyDown string | AnimationFrame real
  | InitializeButton | HaltButton | ResumeButton | AbortButton | MessageArrived nat

definition dispatch :: "random \<Rightarrow> event \<Rightarrow> game \<Rightarrow> game option" where
  "dispatch rnd ev st =
     (case ev of
        KeyDown key \<Rightarrow> handleKeyDown rnd key st
      | AnimationFrame time \<Rightarrow> frame rnd time st
      | InitializeButton \<Rightarrow>
          if status st = IDLE \<or> status st = GAME_OVER then startGame rnd st else Some st
      | HaltButton \<Rightarrow>
          if status st = IDLE \<or> status st = GAME_OVER then Some st
          else if status st = PLAYING then Some (pauseGame st) else Some st
      | ResumeButton \<Rightarrow>
          if status st = IDLE \<or> status st = GAME_OVER then Some st
          else if status st = PLAYING then Some st else Some (resumeGame st)
      | AbortButton \<Rightarrow>
          if status st = IDLE \<or> status st = GAME_OVER then Some st
          else Some (st\<lparr>status := GAME_OVER\<rparr>)
      | MessageArrived i \<Rightarrow> Some (handleMove_resume i st))"

text \<open>A run of events, each with the random values drawn while it is handled.\<close>

fun run :: "(event \<times> random) list \<Rightarrow> game \<Rightarrow> game option" where
  "run [] st = Some st"
| "run ((ev, rnd) # evs) st =
     (case dispatch rnd ev st of None \<Rightarrow> None | Some st' \<Rightarrow> run evs st')"

section \<open>Notions of the specification\<close>

text \<open>The exact reverse of a heading.\<close>

fun opposite :: "Direction \<Rightarrow> Direction" where
  "opposite UP = DOWN"
| "opposite DOWN = UP"
| "opposite LEFT = RIGHT"
| "opposite RIGHT = LEFT"

text \<open>The heading that a key asks for: the case labels of the keyboard handler.\<close>

definition keyHeading :: "string \<Rightarrow> Direction option" where
  "keyHeading key =
     (if key = ''ArrowUp'' \<or> key = ''w'' \<or> key = ''W'' then Some UP
      else if key = ''ArrowDown'' \<or> key = ''s'' \<or> key = ''S'' then Some DOWN
      else if key = ''ArrowLeft'' \<or> key = ''a'' \<or> key = ''A'' then Some LEFT
      else if key = ''ArrowRight'' \<or> key = ''d'' \<or> key = ''D'' then Some RIGHT
      else None)"

text \<open>
  An event commits a tick when it is a frame on which \<^verbatim>\<open>gameLoop\<close> calls \<^verbatim>\<open>onMove\<close>;
  it starts a game when it reaches \<^verbatim>\<open>startGame\<close>. A stretch of events is \<open>quiet\<close> when
  none of them does either: the events between two consecutive committed ticks of one
  game.
\<close>

definition commitsTick :: "event \<Rightarrow> game \<Rightarrow> bool" where
  "commitsTick ev st =
     (case ev of
        AnimationFrame time \<Rightarrow>
          (case gameLoop_call st time of
             OnMove newHead grew \<Rightarrow> True | OnMoveHeadless \<Rightarrow> True | _ \<Rightarrow> False)
      | _ \<Rightarrow> False)"

definition startsGame :: "event \<Rightarrow> game \<Rightarrow> bool" where
  "startsGame ev st =
     ((status st = IDLE \<or> status st = GAME_OVER)
      \<and> (ev = InitializeButton \<or> ev = KeyDown '' '' \<or> ev = KeyDown ''Enter''))"

fun quiet :: "(event \<times> random) list \<Rightarrow> game \<Rightarrow> bool" where
  "quiet [] st = True"
| "quiet ((ev, rnd) # evs) st =
     (if commitsTick ev st then False
      else if startsGame ev st then False
      else (case dispatch rnd ev st of None \<Rightarrow> False | Some st' \<Rightarrow> quiet evs st'))"

section \<open>Example states and random sequences\<close>

text \<open>
  A random source whose products are two fifths of the bound at the first two uses and
  half of it later: on a 25 by 25 board the first draw is (10, 10) and the later draws
  are (12, 12).
\<close>

definition rndExample :: random where
  "rndExample i w = (if i < 2 then 2 * of_int w / 5 else of_int w / 2)"

text \<open>The game right after a start that placed the food at (5, 5).\<close>

definition startedGame :: game where
  "startedGame = initialGame\<lparr>status := PLAYING\<rparr>"

text \<open>
  The started game one committed tick later, at time 200, and a stretch of events after
  it: the down key, the left key, a frame at 250 that is not yet due, a pause and a
  resume.
\<close>

definition movedGame :: game where
  "movedGame =
     startedGame\<lparr>snake := [\<lparr>x = 10, y = 9\<rparr>, \<lparr>x = 10, y = 10\<rparr>, \<lparr>x = 10, y = 11\<rparr>],
                  lastTimeRef := 200\<rparr>"

definition quietEvents :: "(event \<times> random) list" where
  "quietEvents =
     [(KeyDown ''ArrowDown'', rndExample), (KeyDown ''ArrowLeft'', rndExample),
      (AnimationFrame 250, rndExample), (KeyDown ''Enter'', rndExample),
      (KeyDown ''Enter'', rndExample)]"

text \<open>The same with the food right above the head.\<close>

definition feedGame :: game where
  "feedGame = startedGame\<lparr>food := \<lparr>x = 10, y = 9\<rparr>\<rparr>"

text \<open>The same with four foods eaten before: the food above the head is the fifth.\<close>

definition fifthGame :: game where
  "fifthGame = feedGame\<lparr>score := 4\<rparr>"

text \<open>A snake at the left wall, heading LEFT.\<close>

definition wallGame :: game where
  "wallGame =
     \<lparr>status = PLAYING, snake = [\<lparr>x = 0, y = 5\<rparr>, \<lparr>x = 1, y = 5\<rparr>, \<lparr>x = 2, y = 5\<rparr>],
      food = \<lparr>x = 5, y = 5\<rparr>, direction = LEFT, nextDirection = LEFT, score = 0,
      highScore = 0, lastTimeRef = 0, pendingSetSnake = []\<rparr>"

text \<open>
  A snake of four segments curled in a square: the head at (5, 5) came up from (5, 6);
  the cell to its right, (6, 5), holds the last segment.
\<close>

definition curledGame :: game where
  "curledGame =
     \<lparr>status = PLAYING,
      snake = [\<lparr>x = 5, y = 5\<rparr>, \<lparr>x = 5, y = 6\<rparr>, \<lparr>x = 6, y = 6\<rparr>, \<lparr>x = 6, y = 5\<rparr>],
      food = \<lparr>x = 0, y = 0\<rparr>, direction = UP, nextDirection = RIGHT, score = 1,
      highScore = 0, lastTimeRef = 0, pendingSetSnake = []\<rparr>"

text \<open>A snake whose head at (5, 5) came from the right, about to run LEFT into its third segment.\<close>

definition knotGame :: game where
  "knotGame =
     \<lparr>status = PLAYING,
      snake = [\<lparr>x = 5, y = 5\<rparr>, \<lparr>x = 5, y = 6\<rparr>, \<lparr>x = 4, y = 6\<rparr>, \<lparr>x = 4, y = 5\<rparr>, \<lparr>x = 4, y = 4\<rparr>],
      food = \<lparr>x = 0, y = 0\<rparr>, direction = UP, nextDirection = LEFT, score = 7,
      highScore = 3, lastTimeRef = 0, pendingSetSnake = []\<rparr>"

text \<open>
  A board with one free cell. The cells in the order of a path that runs along row 0 to
  the right, back along row 1, and so on: cell 0 is (0, 0) and holds the food, the snake
  is cells 1 to 624 with its head at (1, 0), heading LEFT. It has eaten 621 times.
\<close>

definition fullCell :: "nat \<Rightarrow> Coordinate" where
  "fullCell i =
     \<lparr>x = int (if even (i div 25) then i mod 25 else 24 - i mod 25), y = int (i div 25)\<rparr>"

definition fullGame :: game where
  "fullGame =
     \<lparr>status = PLAYING, snake = map fullCell [1..<625], food = fullCell 0, direction = LEFT,
      nextDirection = LEFT, score = 621, highScore = 621, lastTimeRef = 0,
      pendingSetSnake = []\<rparr>"

section \<open>Facts about the loops\<close>

declare hitsBody.simps [simp del]

lemma samePosition_eq: "samePosition a b \<longleftrightarrow> a = b"
  by (cases a, cases b) (simp add: samePosition_def)

lemma collides_iff_member: "list_ex (\<lambda>segment. samePosition segment p) s \<longleftrightarrow> p \<in> set s"
  by (auto simp: list_ex_iff samePosition_eq)

text \<open>The self-collision loop started at \<open>i\<close> looks at the indices from \<open>i\<close> up to, and without, the last one.\<close>

lemma hitsBody_iff:
  "hitsBody h s i \<longleftrightarrow> (\<exists>j. i \<le> j \<and> j + 1 < length s \<and> h = s ! j)"
proof (induction h s i rule: hitsBody.induct)
  case (1 h s i)
  show ?case
  proof (cases "int i < int (length s) - 1")
    case False
    then show ?thesis by (subst hitsBody.simps) auto
  next
    case True
    show ?thesis
    proof (cases "samePosition h (s ! i)")
      case True
      with \<open>int i < int (length s) - 1\<close> show ?thesis
        by (subst hitsBody.simps) (auto simp: samePosition_eq intro!: exI[of _ i])
    next
      case False
      have "hitsBody h s i = hitsBody h s (i + 1)"
        using False True by (subst hitsBody.simps) simp
      also have "\<dots> \<longleftrightarrow> (\<exists>j. i + 1 \<le> j \<and> j + 1 < length s \<and> h = s ! j)"
        using 1 True False by simp
      also have "\<dots> \<longleftrightarrow> (\<exists>j. i \<le> j \<and> j + 1 < length s \<and> h = s ! j)"
      proof
        assume "\<exists>j. i + 1 \<le> j \<and> j + 1 < length s \<and> h = s ! j"
        then obtain j where j: "i + 1 \<le> j" "j + 1 < length s" "h = s ! j" by blast
        then have "i \<le> j \<and> j + 1 < length s \<and> h = s ! j" by simp
        then show "\<exists>j. i \<le> j \<and> j + 1 < length s \<and> h = s ! j" ..
      next
        assume "\<exists>j. i \<le> j \<and> j + 1 < length s \<and> h = s ! j"
        then obtain j where j: "i \<le> j" "j + 1 < length s" "h = s ! j" by blast
        with False have "j \<noteq> i" by (auto simp: samePosition_eq)
        with j have "i + 1 \<le> j \<and> j + 1 < length s \<and> h = s ! j" by simp
        then show "\<exists>j. i + 1 \<le> j \<and> j + 1 < length s \<and> h = s ! j" ..
      qed
      finally show ?thesis .
    qed
  qed
qed

lemma hitsBody_butlast: "hitsBody h s 0 \<longleftrightarrow> h \<in> set (butlast s)"
proof
  assume "hitsBody h s 0"
  then obtain j where j: "j + 1 < length s" "h = s ! j"
    by (auto simp: hitsBody_iff)
  then have "j < length (butlast s)" "butlast s ! j = h"
    by (simp_all add: nth_butlast)
  then show "h \<in> set (butlast s)"
    by (metis nth_mem)
next
  assume "h \<in> set (butlast s)"
  then obtain j where j: "j < length (butlast s)" "butlast s ! j = h"
    by (auto simp: in_set_conv_nth)
  then have "0 \<le> j \<and> j + 1 < length s \<and> h = s ! j"
    by (simp add: nth_butlast)
  then show "hitsBody h s 0"
    unfolding hitsBody_iff by blast
qed

text \<open>
  The sampling loop started at draw \<open>k\<close>: what it returns is the first draw from \<open>k\<close> on
  that lies on no segment; it returns as soon as there is one, and never otherwise.
\<close>

lemma getRandomPosition_from_sound:
  "getRandomPosition_from rnd k w h s = Some p \<Longrightarrow>
     \<exists>j. k \<le> j \<and> p = randomDraw rnd j w h \<and> p \<notin> set s \<and>
         (\<forall>i. k \<le> i \<and> i < j \<longrightarrow> randomDraw rnd i w h \<in> set s)"
proof (induction rule: getRandomPosition_from.raw_induct[rotated 1, consumes 1, case_names body])
  case (body f rnd k w h s p)
  note step = this
  show ?case
  proof (cases "randomDraw rnd k w h \<in> set s")
    case False
    with step(2) have "p = randomDraw rnd k w h"
      by (simp add: collides_iff_member)
    with False have "k \<le> k \<and> p = randomDraw rnd k w h \<and> p \<notin> set s \<and>
         (\<forall>i. k \<le> i \<and> i < k \<longrightarrow> randomDraw rnd i w h \<in> set s)" by auto
    then show ?thesis ..
  next
    case True
    with step(2) have rec: "f rnd (k + 1) w h s = Some p"
      by (simp add: collides_iff_member)
    from step(1)[OF rec] obtain j where j: "k + 1 \<le> j" "p = randomDraw rnd j w h" "p \<notin> set s"
      "\<forall>i. k + 1 \<le> i \<and> i < j \<longrightarrow> randomDraw rnd i w h \<in> set s" by blast
    have "\<forall>i. k \<le> i \<and> i < j \<longrightarrow> randomDraw rnd i w h \<in> set s"
    proof (intro allI impI)
      fix i assume "k \<le> i \<and> i < j"
      then show "randomDraw rnd i w h \<in> set s"
        using True j(4) by (cases "i = k") auto
    qed
    with j have "k \<le> j \<and> p = randomDraw rnd j w h \<and> p \<notin> set s \<and>
         (\<forall>i. k \<le> i \<and> i < j \<longrightarrow> randomDraw rnd i w h \<in> set s)" by simp
    then show ?thesis ..
  qed
qed

lemma getRandomPosition_from_returns:
  "randomDraw rnd (k + n) w h \<notin> set s \<Longrightarrow> \<exists>p. getRandomPosition_from rnd k w h s = Some p"
proof (induction n arbitrary: k)
  case 0
  then show ?case
    by (subst getRandomPosition_from.simps) (simp add: collides_iff_member)
next
  case (Suc n)
  then have "\<exists>p. getRandomPosition_from rnd (k + 1) w h s = Some p" by simp
  then show ?case
    by (subst getRandomPosition_from.simps) (simp add: collides_iff_member Let_def)
qed

lemma getRandomPosition_from_never:
  assumes "\<And>j. randomDraw rnd j w h \<in> set s"
  shows "getRandomPosition_from rnd k w h s = None"
proof (cases "getRandomPosition_from rnd k w h s")
  case None
  then show ?thesis .
next
  case (Some p)
  from getRandomPosition_from_sound[OF this] assms show ?thesis by blast
qed

text \<open>The sampler returns when some draw is free, and then no later than that draw.\<close>

lemma getRandomPosition_returns:
  assumes "randomDraw rnd n w h \<notin> set s"
  shows "\<exists>p j. getRandomPosition rnd w h s = Some p \<and> p \<notin> set s \<and> j \<le> n
     \<and> p = randomDraw rnd j w h \<and> (\<forall>i. i < j \<longrightarrow> randomDraw rnd i w h \<in> set s)"
proof -
  from getRandomPosition_from_returns[of rnd 0 n w h s] assms
  obtain p where p: "getRandomPosition_from rnd 0 w h s = Some p"
    by auto
  from getRandomPosition_from_sound[OF p]
  obtain j where j: "p = randomDraw rnd j w h" "p \<notin> set s"
      "\<forall>i. 0 \<le> i \<and> i < j \<longrightarrow> randomDraw rnd i w h \<in> set s"
    by blast
  from j(3) assms have "j \<le> n"
    by (meson le0 not_le)
  moreover from j(3) have "\<forall>i. i < j \<longrightarrow> randomDraw rnd i w h \<in> set s"
    by simp
  moreover from p have "getRandomPosition rnd w h s = Some p"
    by (simp add: getRandomPosition_def)
  ultimately have "getRandomPosition rnd w h s = Some p \<and> p \<notin> set s \<and> j \<le> n
     \<and> p = randomDraw rnd j w h \<and> (\<forall>i. i < j \<longrightarrow> randomDraw rnd i w h \<in> set s)"
    using j(1,2) by simp
  then show ?thesis
    by blast
qed

section \<open>The speed curve\<close>

text \<open>
  C3. For every score \<open>s \<ge> 0\<close> the tick interval is \<open>max 50 (150 - min 100 (s * 2))\<close>
  milliseconds; it is 150 at score 0, 100 at 25, 50 at 50 and at 1000; it never
  increases with the score and never drops below 50.
\<close>

theorem speed_curve:
  "(\<forall>s\<ge>0. speedRef s = max 50 (150 - min 100 (s * 2)))
   \<and> speedRef 0 = 150 \<and> speedRef 25 = 100 \<and> speedRef 50 = 50 \<and> speedRef 1000 = 50
   \<and> (\<forall>s s'. s \<le> s' \<longrightarrow> speedRef s' \<le> speedRef s)
   \<and> (\<forall>s. 50 \<le> speedRef s)"
  by (auto simp: speedRef_def)

theorem speed_curve_witness:
  "(0::int) \<le> 30 \<and> speedRef 30 = max 50 (150 - min 100 (30 * 2))
   \<and> (30::int) \<le> 40 \<and> speedRef 40 \<le> speedRef 30 \<and> 50 \<le> speedRef 40"
proof -
  have a: "(0::int) \<le> 30 \<longrightarrow> speedRef 30 = max 50 (150 - min 100 (30 * 2))"
    using conjunct1 [OF speed_curve] by (rule allE)
  have mono: "\<forall>s s'. s \<le> s' \<longrightarrow> speedRef s' \<le> speedRef s" and floor: "\<forall>s. 50 \<le> speedRef s"
    using speed_curve by (rule conjunct1 [OF conjunct2 [OF conjunct2 [OF conjunct2 [OF conjunct2 [OF conjunct2]]]]],
        rule conjunct2 [OF conjunct2 [OF conjunct2 [OF conjunct2 [OF conjunct2 [OF conjunct2]]]]])
  have b: "(30::int) \<le> 40 \<longrightarrow> speedRef 40 \<le> speedRef 30"
    using mono by (elim allE)
  have c: "50 \<le> speedRef 40"
    using floor by (rule allE)
  show ?thesis using a b c by simp
qed

section \<open>Facts about one frame\<close>

text \<open>A due tick on a snake with a head: wall, then body without the last segment, then food.\<close>

lemma gameLoop_tick_due:
  assumes "deltaTime > of_int (speedRef pscore)"
  shows "gameLoop_tick deltaTime pscore (head # rest) pfood pdirection width height =
     (if x (moveHead pdirection head) < 0 \<or> width \<le> x (moveHead pdirection head)
         \<or> y (moveHead pdirection head) < 0 \<or> height \<le> y (moveHead pdirection head)
      then OnGameOver
      else if moveHead pdirection head \<in> set (butlast (head # rest)) then OnGameOver
      else OnMove (moveHead pdirection head) (moveHead pdirection head = pfood))"
proof -
  have eq: "(x c = x pfood \<and> y c = y pfood) \<longleftrightarrow> c = pfood" for c
    using samePosition_eq[of c pfood] by (simp add: samePosition_def)
  show ?thesis
    using assms unfolding gameLoop_tick_def Let_def hitsBody_butlast eq by simp
qed

lemma gameLoop_tick_not_due:
  assumes "\<not> deltaTime > of_int (speedRef pscore)"
  shows "gameLoop_tick deltaTime pscore psnake pfood pdirection width height = NotDue"
  using assms by (simp add: gameLoop_tick_def)


lemma gameLoop_playing:
  "gameLoop PLAYING pscore psnake pfood pdirection width height lastTime time =
     gameLoop_tick (time - lastTime) pscore psnake pfood pdirection width height"
  by (simp add: gameLoop_def)

lemma gameLoop_due:
  assumes "time - lastTime > of_int (speedRef pscore)"
  shows "gameLoop PLAYING pscore (head # rest) pfood pdirection width height lastTime time =
     (if x (moveHead pdirection head) < 0 \<or> width \<le> x (moveHead pdirection head)
         \<or> y (moveHead pdirection head) < 0 \<or> height \<le> y (moveHead pdirection head)
      then OnGameOver
      else if moveHead pdirection head \<in> set (butlast (head # rest)) then OnGameOver
      else OnMove (moveHead pdirection head) (moveHead pdirection head = pfood))"
  unfolding gameLoop_playing by (rule gameLoop_tick_due[OF assms])

lemma gameLoop_not_due:
  assumes "\<not> time - lastTime > of_int (speedRef pscore)"
  shows "gameLoop PLAYING pscore psnake pfood pdirection width height lastTime time = NotDue"
  unfolding gameLoop_playing by (rule gameLoop_tick_not_due[OF assms])

lemma gameLoop_not_playing:
  assumes "pstatus \<noteq> PLAYING"
  shows "gameLoop pstatus pscore psnake pfood pdirection width height lastTime time = NotPlaying"
  using assms by (simp add: gameLoop_def)

text \<open>What a call of \<open>onMove\<close> tells about the state it was made in.\<close>

lemma gameLoop_call_OnMove:
  assumes "gameLoop_call st time = OnMove newHead grew"
  shows "status st = PLAYING \<and> time - lastTimeRef st > of_int (speedRef (score st))
     \<and> (\<exists>head rest. snake st = head # rest \<and> newHead = moveHead (nextDirection st) head)
     \<and> 0 \<le> x newHead \<and> x newHead < BOARD_WIDTH \<and> 0 \<le> y newHead \<and> y newHead < BOARD_HEIGHT
     \<and> newHead \<notin> set (butlast (snake st)) \<and> (grew \<longleftrightarrow> newHead = food st)"
proof -
  have playing: "status st = PLAYING"
    using assms by (auto simp: gameLoop_call_def gameLoop_def split: if_splits)
  have due: "time - lastTimeRef st > of_int (speedRef (score st))"
    using assms playing
    by (auto simp: gameLoop_call_def gameLoop_playing gameLoop_tick_def split: if_splits)
  obtain head rest where sn: "snake st = head # rest"
    using assms playing due
    by (cases "snake st") (auto simp: gameLoop_call_def gameLoop_playing gameLoop_tick_def)
  show ?thesis
    using assms playing due sn
    by (auto simp: gameLoop_call_def gameLoop_due[OF due[unfolded sn]] split: if_splits)
qed

text \<open>What the frame of a tick that calls \<open>onMove\<close> leaves in the state, when it ends.\<close>

lemma frame_OnMove:
  assumes call: "gameLoop_call st time = OnMove newHead grew"
    and commit: "frame rnd time st = Some st'"
  shows "direction st' = nextDirection st \<and> nextDirection st' = nextDirection st
     \<and> status st' = status st \<and> highScore st' = highScore st \<and> lastTimeRef st' = time
     \<and> score st' = (if grew then score st + 1 else score st)
     \<and> (if grew then getRandomPosition rnd BOARD_WIDTH BOARD_HEIGHT (newHead # snake st) = Some (food st')
         else food st' = food st)
     \<and> (if grew \<and> (score st + 1) mod 5 = 0
         then snake st' = snake st
           \<and> pendingSetSnake st' = pendingSetSnake st @ [newHead # snake st]
         else pendingSetSnake st' = pendingSetSnake st
           \<and> snake st' = (if grew then newHead # snake st else newHead # butlast (snake st)))"
proof -
  from gameLoop_call_OnMove[OF call] obtain head rest where "snake st = head # rest"
    by blast
  then show ?thesis
    using call commit
    by (auto simp: frame_def handleMove_def Let_def split: option.splits if_splits)
qed

lemma frame_OnMove_no_growth:
  assumes "gameLoop_call st time = OnMove newHead False"
  shows "frame rnd time st =
     Some (st\<lparr>direction := nextDirection st, snake := newHead # butlast (snake st),
              lastTimeRef := time\<rparr>)"
proof -
  from gameLoop_call_OnMove[OF assms] obtain head rest where "snake st = head # rest"
    by blast
  then show ?thesis
    using assms by (simp add: frame_def handleMove_def)
qed

lemma frame_OnMove_growth:
  assumes "gameLoop_call st time = OnMove newHead True"
    and "getRandomPosition rnd BOARD_WIDTH BOARD_HEIGHT (newHead # snake st) = Some p"
  shows "frame rnd time st =
     Some (if (score st + 1) mod 5 = 0
           then st\<lparr>direction := nextDirection st, score := score st + 1, food := p,
                   pendingSetSnake := pendingSetSnake st @ [newHead # snake st],
                   lastTimeRef := time\<rparr>
           else st\<lparr>direction := nextDirection st, score := score st + 1, food := p,
                   snake := newHead # snake st, lastTimeRef := time\<rparr>)"
  using assms by (simp add: frame_def handleMove_def Let_def)

section \<open>The example states, evaluated\<close>

lemmas board = BOARD_WIDTH_def BOARD_HEIGHT_def

lemmas examples = startedGame_def initialGame_def INITIAL_SNAKE_def feedGame_def wallGame_def
  curledGame_def knotGame_def fifthGame_def

lemma gameLoop_call_wallGame: "gameLoop_call wallGame 200 = OnGameOver"
  by (simp add: gameLoop_call_def wallGame_def gameLoop_due speedRef_def board)

lemma gameLoop_call_knotGame: "gameLoop_call knotGame 200 = OnGameOver"
  by (simp add: gameLoop_call_def knotGame_def gameLoop_due speedRef_def board)

lemma gameLoop_call_curledGame: "gameLoop_call curledGame 200 = OnMove \<lparr>x = 6, y = 5\<rparr> False"
  by (simp add: gameLoop_call_def curledGame_def gameLoop_due speedRef_def board)

lemma gameLoop_call_startedGame: "gameLoop_call startedGame 200 = OnMove \<lparr>x = 10, y = 9\<rparr> False"
  by (simp add: gameLoop_call_def examples gameLoop_due speedRef_def board)

lemma gameLoop_call_feedGame: "gameLoop_call feedGame 200 = OnMove \<lparr>x = 10, y = 9\<rparr> True"
  by (simp add: gameLoop_call_def examples gameLoop_due speedRef_def board)

lemma randomDraw_rndExample:
  "randomDraw rndExample 0 25 25 = \<lparr>x = 10, y = 10\<rparr>"
  "randomDraw rndExample (Suc k) 25 25 = \<lparr>x = 12, y = 12\<rparr>"
  by (simp_all add: randomDraw_def rndExample_def)

lemma getRandomPosition_rndExample:
  assumes "\<lparr>x = 10, y = 10\<rparr> \<in> set s" "\<lparr>x = 12, y = 12\<rparr> \<notin> set s"
  shows "getRandomPosition rndExample 25 25 s = Some \<lparr>x = 12, y = 12\<rparr>"
proof -
  have "getRandomPosition_from rndExample 1 25 25 s = Some \<lparr>x = 12, y = 12\<rparr>"
    using assms randomDraw_rndExample(2)[of 0]
    by (subst getRandomPosition_from.simps) (simp add: collides_iff_member)
  then show ?thesis
    using assms unfolding getRandomPosition_def
    by (subst getRandomPosition_from.simps) (simp add: collides_iff_member randomDraw_rndExample)
qed

lemma frame_startedGame:
  "frame rnd 200 startedGame =
     Some (startedGame\<lparr>snake := [\<lparr>x = 10, y = 9\<rparr>, \<lparr>x = 10, y = 10\<rparr>, \<lparr>x = 10, y = 11\<rparr>],
                       lastTimeRef := 200\<rparr>)"
  by (simp add: frame_def gameLoop_call_startedGame handleMove_def) (simp add: examples)

lemma frame_feedGame:
  "frame rndExample 200 feedGame =
     Some (feedGame\<lparr>snake := \<lparr>x = 10, y = 9\<rparr> # INITIAL_SNAKE, score := 1,
                     food := \<lparr>x = 12, y = 12\<rparr>, lastTimeRef := 200\<rparr>)"
proof -
  have "getRandomPosition rndExample 25 25 (\<lparr>x = 10, y = 9\<rparr> # snake feedGame) = Some \<lparr>x = 12, y = 12\<rparr>"
    by (rule getRandomPosition_rndExample) (simp_all add: examples)
  then show ?thesis
    by (simp add: frame_def gameLoop_call_feedGame handleMove_def board) (simp add: examples)
qed

text \<open>
  The fifth food: the frame ends with the score and the food written and the snake as it
  was; the grown snake waits for the status message, and is set when that arrives.
\<close>

lemma gameLoop_call_fifthGame: "gameLoop_call fifthGame 200 = OnMove \<lparr>x = 10, y = 9\<rparr> True"
  by (simp add: gameLoop_call_def examples gameLoop_due speedRef_def board)

lemma frame_fifthGame:
  "frame rndExample 200 fifthGame =
     Some (fifthGame\<lparr>score := 5, food := \<lparr>x = 12, y = 12\<rparr>,
                      pendingSetSnake := [\<lparr>x = 10, y = 9\<rparr> # INITIAL_SNAKE], lastTimeRef := 200\<rparr>)"
proof -
  have "getRandomPosition rndExample 25 25 (\<lparr>x = 10, y = 9\<rparr> # snake fifthGame) = Some \<lparr>x = 12, y = 12\<rparr>"
    by (rule getRandomPosition_rndExample) (simp_all add: examples)
  then show ?thesis
    by (simp add: frame_def gameLoop_call_fifthGame handleMove_def board) (simp add: examples)
qed

lemma resume_fifthGame:
  "handleMove_resume 0
       (fifthGame\<lparr>score := 5, food := \<lparr>x = 12, y = 12\<rparr>,
                   pendingSetSnake := [\<lparr>x = 10, y = 9\<rparr> # INITIAL_SNAKE], lastTimeRef := 200\<rparr>)
     = fifthGame\<lparr>score := 5, food := \<lparr>x = 12, y = 12\<rparr>,
                  snake := \<lparr>x = 10, y = 9\<rparr> # INITIAL_SNAKE, lastTimeRef := 200\<rparr>"
  by (simp add: handleMove_resume_def) (simp add: examples)

text \<open>
  A tick that is run while that handler waits moves the snake as it was, without growth;
  the message that arrives afterwards sets the grown snake of the earlier tick.
\<close>

lemma run_fifthGame:
  "run [(AnimationFrame 200, rndExample), (AnimationFrame 400, rndExample),
        (MessageArrived 0, rndExample)] fifthGame
     = Some (fifthGame\<lparr>score := 5, food := \<lparr>x = 12, y = 12\<rparr>,
                        snake := \<lparr>x = 10, y = 9\<rparr> # INITIAL_SNAKE, lastTimeRef := 400\<rparr>)"
proof -
  let ?waiting = "fifthGame\<lparr>score := 5, food := \<lparr>x = 12, y = 12\<rparr>,
      pendingSetSnake := [\<lparr>x = 10, y = 9\<rparr> # INITIAL_SNAKE], lastTimeRef := 200\<rparr>"
  let ?moved = "?waiting\<lparr>snake := [\<lparr>x = 10, y = 9\<rparr>, \<lparr>x = 10, y = 10\<rparr>, \<lparr>x = 10, y = 11\<rparr>],
      lastTimeRef := 400\<rparr>"
  have call: "gameLoop_call ?waiting 400 = OnMove \<lparr>x = 10, y = 9\<rparr> False"
    by (simp add: gameLoop_call_def examples gameLoop_due speedRef_def board)
  have second: "frame rndExample 400 ?waiting = Some ?moved"
    by (simp add: frame_OnMove_no_growth[OF call]) (simp add: examples)
  show ?thesis
    by (simp add: dispatch_def frame_fifthGame second) (simp add: handleMove_resume_def examples)
qed

text \<open>The board of \<open>fullGame\<close>: the path visits every cell, and cell 0 only at its start.\<close>

lemma fullCell_origin: "fullCell i = \<lparr>x = 0, y = 0\<rparr> \<longleftrightarrow> i = 0"
proof
  assume a: "fullCell i = \<lparr>x = 0, y = 0\<rparr>"
  then have "i div 25 = 0"
    by (simp add: fullCell_def)
  with a show "i = 0"
    by (simp add: fullCell_def)
next
  assume "i = 0"
  then show "fullCell i = \<lparr>x = 0, y = 0\<rparr>"
    by (simp add: fullCell_def)
qed

lemma fullCell_covers:
  assumes "0 \<le> a" "a < 25" "0 \<le> b" "b < 25"
  shows "\<lparr>x = a, y = b\<rparr> \<in> set (map fullCell [0..<625])"
proof -
  define i where "i = nat b * 25 + (if even (nat b) then nat a else 24 - nat a)"
  have col: "(if even (nat b) then nat a else 24 - nat a) < 25"
    using assms by auto
  have row: "i div 25 = nat b" and rem: "i mod 25 = (if even (nat b) then nat a else 24 - nat a)"
    using col unfolding i_def by simp_all
  have "fullCell i = \<lparr>x = a, y = b\<rparr>"
    unfolding fullCell_def row rem using assms by auto
  moreover have "i < 625"
    using col assms unfolding i_def by auto
  ultimately show ?thesis
    by (metis atLeastLessThan_iff image_eqI le0 set_map set_upt)
qed

text \<open>Products that lie in the range of the board give cells of the board.\<close>

lemma randomDraw_inside:
  assumes "\<And>i. 0 \<le> rnd i 25 \<and> rnd i 25 < 25"
  shows "0 \<le> x (randomDraw rnd k 25 25) \<and> x (randomDraw rnd k 25 25) < 25
     \<and> 0 \<le> y (randomDraw rnd k 25 25) \<and> y (randomDraw rnd k 25 25) < 25"
proof -
  have "0 \<le> \<lfloor>r\<rfloor> \<and> \<lfloor>r\<rfloor> < 25" if "0 \<le> r \<and> r < 25" for r :: real
    using that by (simp add: floor_less_iff)
  from this[OF assms[of "2 * k"]] this[OF assms[of "2 * k + 1"]]
  show ?thesis
    by (simp add: randomDraw_def)
qed

lemma full_board_never_returns:
  assumes "\<And>i. 0 \<le> rnd i 25 \<and> rnd i 25 < 25"
  shows "getRandomPosition rnd 25 25 (map fullCell [0..<625]) = None"
  unfolding getRandomPosition_def
proof (rule getRandomPosition_from_never)
  fix j
  from randomDraw_inside[of rnd j, OF assms]
  have "\<lparr>x = x (randomDraw rnd j 25 25), y = y (randomDraw rnd j 25 25)\<rparr> \<in> set (map fullCell [0..<625])"
    by (intro fullCell_covers) (simp_all del: upt_rec_numeral)
  moreover have "\<lparr>x = x c, y = y c\<rparr> = c" for c :: Coordinate
    by (cases c) simp
  ultimately show "randomDraw rnd j 25 25 \<in> set (map fullCell [0..<625])"
    by (simp del: upt_rec_numeral)
qed

lemma rndExample_inside: "0 \<le> rndExample i 25 \<and> rndExample i 25 < 25"
  by (simp add: rndExample_def)

lemma snake_fullGame: "snake fullGame = fullCell 1 # map fullCell [2..<625]"
proof -
  have "[1..<625] = 1 # [2..<625]"
    by (subst upt_rec) (simp del: upt_rec_numeral add: numeral_2_eq_2)
  then show ?thesis
    by (simp add: fullGame_def del: upt_rec_numeral)
qed

lemma gameLoop_call_fullGame: "gameLoop_call fullGame 1000 = OnMove (food fullGame) True"
proof -
  have head: "moveHead LEFT (fullCell 1) = \<lparr>x = 0, y = 0\<rparr>"
    by (simp add: fullCell_def)
  have "\<lparr>x = 0, y = 0\<rparr> \<notin> set (snake fullGame)"
  proof
    assume "\<lparr>x = 0, y = 0\<rparr> \<in> set (snake fullGame)"
    then obtain i where "1 \<le> i" "fullCell i = \<lparr>x = 0, y = 0\<rparr>"
      by (auto simp: fullGame_def simp del: upt_Suc upt_rec_numeral)
    then show False
      by (simp add: fullCell_origin)
  qed
  then have clear: "\<lparr>x = 0, y = 0\<rparr> \<notin> set (butlast (fullCell 1 # map fullCell [2..<625]))"
    unfolding snake_fullGame by (meson in_set_butlastD)
  have due: "(1000::real) - 0 > of_int (speedRef 621)"
    by (simp add: speedRef_def)
  have "gameLoop PLAYING 621 (fullCell 1 # map fullCell [2..<625]) \<lparr>x = 0, y = 0\<rparr> LEFT 25 25 0 1000
      = OnMove \<lparr>x = 0, y = 0\<rparr> True"
    using clear unfolding gameLoop_due[OF due] head by (simp del: upt_rec_numeral)
  moreover have "food fullGame = \<lparr>x = 0, y = 0\<rparr>"
    by (simp add: fullGame_def fullCell_origin del: upt_rec_numeral)
  moreover have "status fullGame = PLAYING" "score fullGame = 621" "nextDirection fullGame = LEFT"
    "lastTimeRef fullGame = 0"
    by (simp_all add: fullGame_def del: upt_rec_numeral)
  ultimately show ?thesis
    unfolding gameLoop_call_def snake_fullGame board by (simp del: upt_rec_numeral)
qed

lemma handleMove_fullGame: "handleMove rndExample (food fullGame) True fullGame = None"
proof -
  have "[0..<625] = 0 # [1..<625]"
    by (subst upt_rec) (simp del: upt_rec_numeral)
  then have "food fullGame # snake fullGame = map fullCell [0..<625]"
    by (simp add: fullGame_def del: upt_rec_numeral)
  then show ?thesis
    using full_board_never_returns[of rndExample, OF rndExample_inside]
    by (simp add: handleMove_def board del: upt_rec_numeral)
qed

lemma frame_fullGame: "frame rndExample 1000 fullGame = None"
  using handleMove_fullGame by (simp add: frame_def gameLoop_call_fullGame)

section \<open>Wall collision\<close>

text \<open>
  C7. On a tick in PLAYING state (a due frame) whose candidate head lies outside
  \<open>[0, width) \<times> [0, height)\<close>, \<^verbatim>\<open>gameLoop\<close> calls \<^verbatim>\<open>onGameOver\<close>, and in the
  application the frame ends in status GAME_OVER. In particular a head at (0, 5)
  heading LEFT on a 25 by 25 board collides.
\<close>

theorem wall_collision:
  assumes due: "time - lastTime > of_int (speedRef pscore)"
    and out: "x (moveHead pdirection head) < 0 \<or> width \<le> x (moveHead pdirection head)
         \<or> y (moveHead pdirection head) < 0 \<or> height \<le> y (moveHead pdirection head)"
  shows "gameLoop PLAYING pscore (head # rest) pfood pdirection width height lastTime time = OnGameOver
     \<and> (status st = PLAYING \<and> score st = pscore \<and> snake st = head # rest \<and> food st = pfood
          \<and> nextDirection st = pdirection \<and> lastTimeRef st = lastTime
          \<and> width = BOARD_WIDTH \<and> height = BOARD_HEIGHT
        \<longrightarrow> frame rnd time st = Some (gameOver st) \<and> status (gameOver st) = GAME_OVER)
     \<and> gameLoop PLAYING pscore (\<lparr>x = 0, y = 5\<rparr> # rest) pfood LEFT 25 25 lastTime time = OnGameOver"
proof -
  have a: "gameLoop PLAYING pscore (head # rest) pfood pdirection width height lastTime time = OnGameOver"
    using out by (simp add: gameLoop_due[OF due])
  have b: "frame rnd time st = Some (gameOver st) \<and> status (gameOver st) = GAME_OVER"
    if "status st = PLAYING \<and> score st = pscore \<and> snake st = head # rest \<and> food st = pfood
          \<and> nextDirection st = pdirection \<and> lastTimeRef st = lastTime
          \<and> width = BOARD_WIDTH \<and> height = BOARD_HEIGHT"
    using that a by (auto simp: frame_def gameLoop_call_def gameOver_def Let_def)
  have c: "gameLoop PLAYING pscore (\<lparr>x = 0, y = 5\<rparr> # rest) pfood LEFT 25 25 lastTime time = OnGameOver"
    by (simp add: gameLoop_due[OF due])
  show ?thesis using a b c by blast
qed

theorem wall_collision_witness:
  "(200::real) - 0 > of_int (speedRef 0) \<and> x (moveHead LEFT \<lparr>x = 0, y = 5\<rparr>) < 0
   \<and> gameLoop PLAYING 0 [\<lparr>x = 0, y = 5\<rparr>, \<lparr>x = 1, y = 5\<rparr>, \<lparr>x = 2, y = 5\<rparr>] \<lparr>x = 5, y = 5\<rparr> LEFT
        BOARD_WIDTH BOARD_HEIGHT 0 200 = OnGameOver
   \<and> frame rndExample 200 wallGame = Some (gameOver wallGame)
   \<and> status (gameOver wallGame) = GAME_OVER"
proof -
  have due: "(200::real) - 0 > of_int (speedRef 0)"
    by (simp add: speedRef_def)
  have out: "x (moveHead LEFT \<lparr>x = 0, y = 5\<rparr>) < 0 \<or> BOARD_WIDTH \<le> x (moveHead LEFT \<lparr>x = 0, y = 5\<rparr>)
         \<or> y (moveHead LEFT \<lparr>x = 0, y = 5\<rparr>) < 0 \<or> BOARD_HEIGHT \<le> y (moveHead LEFT \<lparr>x = 0, y = 5\<rparr>)"
    by simp
  have st: "status wallGame = PLAYING \<and> score wallGame = 0
      \<and> snake wallGame = \<lparr>x = 0, y = 5\<rparr> # [\<lparr>x = 1, y = 5\<rparr>, \<lparr>x = 2, y = 5\<rparr>]
      \<and> food wallGame = \<lparr>x = 5, y = 5\<rparr> \<and> nextDirection wallGame = LEFT \<and> lastTimeRef wallGame = 0
      \<and> BOARD_WIDTH = BOARD_WIDTH \<and> BOARD_HEIGHT = BOARD_HEIGHT"
    by (simp add: wallGame_def)
  show ?thesis
    using due st
      wall_collision [OF due out, where rest = "[\<lparr>x = 1, y = 5\<rparr>, \<lparr>x = 2, y = 5\<rparr>]"
        and pfood = "\<lparr>x = 5, y = 5\<rparr>" and st = wallGame and rnd = rndExample]
    by simp
qed

section \<open>The head moves one cell\<close>

text \<open>
  C8. On every committed tick the new head is the previous head moved one cell in the
  direction of the effective heading (UP decrements y, DOWN increments y, LEFT decrements
  x, RIGHT increments x), at Manhattan distance 1, and it is the first segment of the
  Actor that the handler sets (inside the frame, or on every fifth food once its status
  message has arrived). The Actor [(10,10),(10,11),(10,12)] heading UP on the 25 by 25 board, with no
  food at (10,9), moves to [(10,9),(10,10),(10,11)].
\<close>

theorem head_moves_one_cell:
  assumes call: "gameLoop_call st time = OnMove newHead grew"
    and hd: "snake st = head # rest"
    and commit: "frame rnd time st = Some st'"
  shows "newHead = moveHead (nextDirection st) head
     \<and> \<bar>x newHead - x head\<bar> + \<bar>y newHead - y head\<bar> = 1
     \<and> (nextDirection st = UP \<longrightarrow> x newHead = x head \<and> y newHead = y head - 1)
     \<and> (nextDirection st = DOWN \<longrightarrow> x newHead = x head \<and> y newHead = y head + 1)
     \<and> (nextDirection st = LEFT \<longrightarrow> x newHead = x head - 1 \<and> y newHead = y head)
     \<and> (nextDirection st = RIGHT \<longrightarrow> x newHead = x head + 1 \<and> y newHead = y head)
     \<and> (\<exists>body. (if grew \<and> (score st + 1) mod 5 = 0 then last (pendingSetSnake st')
                  else snake st') = newHead # body)
     \<and> (status st = PLAYING \<and> snake st = [\<lparr>x = 10, y = 10\<rparr>, \<lparr>x = 10, y = 11\<rparr>, \<lparr>x = 10, y = 12\<rparr>]
          \<and> nextDirection st = UP \<and> food st \<noteq> \<lparr>x = 10, y = 9\<rparr>
        \<longrightarrow> newHead = \<lparr>x = 10, y = 9\<rparr> \<and> grew = False
            \<and> snake st' = [\<lparr>x = 10, y = 9\<rparr>, \<lparr>x = 10, y = 10\<rparr>, \<lparr>x = 10, y = 11\<rparr>])"
proof -
  from gameLoop_call_OnMove[OF call] hd
  have nh: "newHead = moveHead (nextDirection st) head" and g: "grew \<longleftrightarrow> newHead = food st"
    by auto
  have dist: "\<bar>x newHead - x head\<bar> + \<bar>y newHead - y head\<bar> = 1"
    unfolding nh by (cases "nextDirection st") simp_all
  have dirs: "(nextDirection st = UP \<longrightarrow> x newHead = x head \<and> y newHead = y head - 1)
     \<and> (nextDirection st = DOWN \<longrightarrow> x newHead = x head \<and> y newHead = y head + 1)
     \<and> (nextDirection st = LEFT \<longrightarrow> x newHead = x head - 1 \<and> y newHead = y head)
     \<and> (nextDirection st = RIGHT \<longrightarrow> x newHead = x head + 1 \<and> y newHead = y head)"
    unfolding nh by simp
  note after = frame_OnMove[OF call commit]
  have sn: "snake st' = newHead # butlast (snake st)" if "\<not> grew"
    using after that by simp
  have first: "\<exists>body. (if grew \<and> (score st + 1) mod 5 = 0 then last (pendingSetSnake st')
                  else snake st') = newHead # body"
    using after by (cases "grew \<and> (score st + 1) mod 5 = 0") (auto split: if_splits)
  have ex: "newHead = \<lparr>x = 10, y = 9\<rparr> \<and> grew = False
            \<and> snake st' = [\<lparr>x = 10, y = 9\<rparr>, \<lparr>x = 10, y = 10\<rparr>, \<lparr>x = 10, y = 11\<rparr>]"
    if "status st = PLAYING \<and> snake st = [\<lparr>x = 10, y = 10\<rparr>, \<lparr>x = 10, y = 11\<rparr>, \<lparr>x = 10, y = 12\<rparr>]
          \<and> nextDirection st = UP \<and> food st \<noteq> \<lparr>x = 10, y = 9\<rparr>"
  proof -
    from that hd have "head = \<lparr>x = 10, y = 10\<rparr>" by simp
    with nh that have "newHead = \<lparr>x = 10, y = 9\<rparr>" by simp
    moreover from this g that have "\<not> grew" by auto
    ultimately show ?thesis using sn that by simp
  qed
  show ?thesis using nh dist dirs first ex by blast
qed

theorem head_moves_one_cell_witness:
  "gameLoop_call startedGame 200 = OnMove \<lparr>x = 10, y = 9\<rparr> False
   \<and> (\<exists>st'. frame rndExample 200 startedGame = Some st'
        \<and> snake st' = [\<lparr>x = 10, y = 9\<rparr>, \<lparr>x = 10, y = 10\<rparr>, \<lparr>x = 10, y = 11\<rparr>])
   \<and> \<bar>x \<lparr>x = 10, y = 9\<rparr> - x \<lparr>x = 10, y = 10\<rparr>\<bar> + \<bar>y \<lparr>x = 10, y = 9\<rparr> - y \<lparr>x = 10, y = 10\<rparr>\<bar> = (1::int)"
proof -
  have hd: "snake startedGame = \<lparr>x = 10, y = 10\<rparr> # [\<lparr>x = 10, y = 11\<rparr>, \<lparr>x = 10, y = 12\<rparr>]"
    by (simp add: examples)
  have st: "status startedGame = PLAYING
      \<and> snake startedGame = [\<lparr>x = 10, y = 10\<rparr>, \<lparr>x = 10, y = 11\<rparr>, \<lparr>x = 10, y = 12\<rparr>]
      \<and> nextDirection startedGame = UP \<and> food startedGame \<noteq> \<lparr>x = 10, y = 9\<rparr>"
    by (simp add: examples)
  show ?thesis
    using st head_moves_one_cell [OF gameLoop_call_startedGame hd frame_startedGame [of rndExample]]
    by (simp add: gameLoop_call_startedGame frame_startedGame)
qed

section \<open>Frames outside PLAYING, pause and resume\<close>

text \<open>
  C9. A frame received while the status is not PLAYING (IDLE, PAUSED or GAME_OVER)
  changes nothing: Actor, Food, Score and the headings, with every other cell, stay as
  they are. Pausing and resuming, by button or by key, change the status and nothing
  else.
\<close>

theorem idle_frame_and_pause:
  "(status st \<noteq> PLAYING \<longrightarrow> gameLoop_call st time = NotPlaying \<and> frame rnd time st = Some st)
   \<and> pauseGame st = st\<lparr>status := PAUSED\<rparr> \<and> resumeGame st = st\<lparr>status := PLAYING\<rparr>
   \<and> snake (pauseGame st) = snake st \<and> food (pauseGame st) = food st
   \<and> score (pauseGame st) = score st \<and> direction (pauseGame st) = direction st
   \<and> nextDirection (pauseGame st) = nextDirection st
   \<and> snake (resumeGame st) = snake st \<and> food (resumeGame st) = food st
   \<and> score (resumeGame st) = score st \<and> direction (resumeGame st) = direction st
   \<and> nextDirection (resumeGame st) = nextDirection st
   \<and> (status st = PLAYING \<longrightarrow> handleKeyDown rnd ''Enter'' st = Some (pauseGame st)
         \<and> handleKeyDown rnd '' '' st = Some (pauseGame st)
         \<and> dispatch rnd HaltButton st = Some (pauseGame st))
   \<and> (status st = PAUSED \<longrightarrow> handleKeyDown rnd ''Enter'' st = Some (resumeGame st)
         \<and> handleKeyDown rnd '' '' st = Some (resumeGame st)
         \<and> dispatch rnd ResumeButton st = Some (resumeGame st))"
proof -
  have a: "gameLoop_call st time = NotPlaying \<and> frame rnd time st = Some st" if "status st \<noteq> PLAYING"
    using that by (simp add: frame_def gameLoop_call_def gameLoop_not_playing)
  have b: "handleKeyDown rnd ''Enter'' st = Some (pauseGame st)
         \<and> handleKeyDown rnd '' '' st = Some (pauseGame st)
         \<and> dispatch rnd HaltButton st = Some (pauseGame st)" if "status st = PLAYING"
    using that by (simp add: handleKeyDown_def dispatch_def)
  have c: "handleKeyDown rnd ''Enter'' st = Some (resumeGame st)
         \<and> handleKeyDown rnd '' '' st = Some (resumeGame st)
         \<and> dispatch rnd ResumeButton st = Some (resumeGame st)" if "status st = PAUSED"
    using that by (simp add: handleKeyDown_def dispatch_def)
  show ?thesis
    using a b c by (simp add: pauseGame_def resumeGame_def)
qed

theorem idle_frame_and_pause_witness:
  "status initialGame \<noteq> PLAYING \<and> frame rndExample 200 initialGame = Some initialGame
   \<and> status startedGame = PLAYING
   \<and> handleKeyDown rndExample ''Enter'' startedGame = Some (startedGame\<lparr>status := PAUSED\<rparr>)
   \<and> status (pauseGame startedGame) = PAUSED
   \<and> frame rndExample 200 (pauseGame startedGame) = Some (pauseGame startedGame)
   \<and> handleKeyDown rndExample ''Enter'' (pauseGame startedGame) = Some startedGame"
proof -
  have idle: "status initialGame \<noteq> PLAYING" by (simp add: initialGame_def)
  have playing: "status startedGame = PLAYING" by (simp add: startedGame_def)
  have paused: "status (pauseGame startedGame) = PAUSED" by (simp add: pauseGame_def)
  have undo: "resumeGame (pauseGame startedGame) = startedGame"
    by (simp add: pauseGame_def resumeGame_def startedGame_def)
  show ?thesis
    using idle playing paused undo
      idle_frame_and_pause [of initialGame 200 rndExample]
      idle_frame_and_pause [of startedGame 200 rndExample]
      idle_frame_and_pause [of "pauseGame startedGame" 200 rndExample]
    by simp
qed

section \<open>A collision changes the status only\<close>

text \<open>
  C10. When a tick collides (wall or body), the frame leaves Actor, Food, Score, the
  headings and the time of the last committed tick as they are; the status becomes
  GAME_OVER, and the best score is raised to the Score when the Score exceeds it.
\<close>

theorem collision_is_atomic:
  assumes "gameLoop_call st time = OnGameOver"
  shows "frame rnd time st = Some (st\<lparr>status := GAME_OVER, highScore := max (highScore st) (score st)\<rparr>)
     \<and> (\<exists>st'. frame rnd time st = Some st' \<and> snake st' = snake st \<and> food st' = food st
          \<and> score st' = score st \<and> lastTimeRef st' = lastTimeRef st
          \<and> direction st' = direction st \<and> nextDirection st' = nextDirection st
          \<and> status st' = GAME_OVER
          \<and> highScore st' = (if score st > highScore st then score st else highScore st))"
  using assms by (simp add: frame_def gameOver_def Let_def max_def)

theorem collision_is_atomic_witness:
  "gameLoop_call wallGame 200 = OnGameOver
   \<and> frame rndExample 200 wallGame = Some (wallGame\<lparr>status := GAME_OVER\<rparr>)
   \<and> gameLoop_call knotGame 200 = OnGameOver
   \<and> frame rndExample 200 knotGame = Some (knotGame\<lparr>status := GAME_OVER, highScore := 7\<rparr>)"
proof -
  have w: "wallGame\<lparr>status := GAME_OVER, highScore := max (highScore wallGame) (score wallGame)\<rparr>
      = wallGame\<lparr>status := GAME_OVER\<rparr>"
    by (simp add: wallGame_def)
  have k: "max (highScore knotGame) (score knotGame) = 7"
    by (simp add: knotGame_def)
  show ?thesis
    using collision_is_atomic [OF gameLoop_call_wallGame, of rndExample]
      collision_is_atomic [OF gameLoop_call_knotGame, of rndExample]
    by (simp add: w k gameLoop_call_wallGame gameLoop_call_knotGame)
qed

section \<open>The tick gate\<close>




section \<open>Self collision\<close>

text \<open>
  C1 says that a candidate head on any segment of the Actor, the last one included, ends
  the game. The loop of \<^verbatim>\<open>gameLoop\<close> stops before the last segment: a due tick whose
  candidate head is the cell of the last segment, inside the board and on no earlier
  segment, calls \<^verbatim>\<open>onMove\<close>.
\<close>

theorem last_segment_not_checked:
  assumes due: "time - lastTime > of_int (speedRef pscore)"
    and step: "moveHead pdirection head = last (head # rest)"
    and inside: "0 \<le> x (last (head # rest)) \<and> x (last (head # rest)) < width
        \<and> 0 \<le> y (last (head # rest)) \<and> y (last (head # rest)) < height"
    and free: "last (head # rest) \<notin> set (butlast (head # rest))"
  shows "gameLoop PLAYING pscore (head # rest) pfood pdirection width height lastTime time =
     OnMove (last (head # rest)) (last (head # rest) = pfood)"
  using step inside free by (simp add: gameLoop_due[OF due] del: last.simps butlast.simps)

theorem last_segment_not_checked_witness:
  "\<lparr>x = 6, y = 5\<rparr> \<in> set (snake curledGame)
   \<and> gameLoop_call curledGame 200 = OnMove \<lparr>x = 6, y = 5\<rparr> False
   \<and> frame rndExample 200 curledGame =
       Some (curledGame\<lparr>direction := RIGHT,
               snake := [\<lparr>x = 6, y = 5\<rparr>, \<lparr>x = 5, y = 5\<rparr>, \<lparr>x = 5, y = 6\<rparr>, \<lparr>x = 6, y = 6\<rparr>],
               lastTimeRef := 200\<rparr>)"
proof -
  have due: "(200::real) - 0 > of_int (speedRef 1)"
    by (simp add: speedRef_def)
  have call: "gameLoop PLAYING 1 (\<lparr>x = 5, y = 5\<rparr> # [\<lparr>x = 5, y = 6\<rparr>, \<lparr>x = 6, y = 6\<rparr>, \<lparr>x = 6, y = 5\<rparr>])
      \<lparr>x = 0, y = 0\<rparr> RIGHT 25 25 0 200 = OnMove \<lparr>x = 6, y = 5\<rparr> False"
    using last_segment_not_checked [OF due, of RIGHT "\<lparr>x = 5, y = 5\<rparr>"
        "[\<lparr>x = 5, y = 6\<rparr>, \<lparr>x = 6, y = 6\<rparr>, \<lparr>x = 6, y = 5\<rparr>]" 25 25 "\<lparr>x = 0, y = 0\<rparr>"]
    by simp
  then have c: "gameLoop_call curledGame 200 = OnMove \<lparr>x = 6, y = 5\<rparr> False"
    by (simp add: gameLoop_call_def curledGame_def board)
  show ?thesis
    by (simp add: c frame_def handleMove_def) (simp add: curledGame_def)
qed

section \<open>Length of the Actor\<close>

text \<open>
  C6, as the code has it. Take a tick in PLAYING state that calls \<^verbatim>\<open>onMove\<close>. Growth
  occurs exactly when the new head is the Food cell. Without growth the frame ends with
  the new head put in front and the last segment dropped: the length of the Actor is
  the same. With growth, when the new Score is not a multiple of 5 and the food sampler
  draws a free cell, the frame ends with the new head put in front and no segment
  dropped: the length of the Actor is one more.
\<close>

theorem actor_length:
  assumes call: "gameLoop_call st time = OnMove newHead grew"
  shows "status st = PLAYING \<and> (grew \<longleftrightarrow> newHead = food st)
     \<and> (\<not> grew \<longrightarrow>
          (\<exists>st'. frame rnd time st = Some st'
             \<and> snake st' = newHead # butlast (snake st)
             \<and> length (snake st') = length (snake st)))
     \<and> (grew \<and> (score st + 1) mod 5 \<noteq> 0
          \<and> randomDraw rnd n BOARD_WIDTH BOARD_HEIGHT \<notin> set (newHead # snake st) \<longrightarrow>
          (\<exists>st'. frame rnd time st = Some st'
             \<and> snake st' = newHead # snake st
             \<and> length (snake st') = length (snake st) + 1))"
proof -
  from gameLoop_call_OnMove[OF call]
  have playing: "status st = PLAYING" and g: "grew \<longleftrightarrow> newHead = food st"
    and ne: "snake st \<noteq> []"
    by auto
  have same: "\<exists>st'. frame rnd time st = Some st'
             \<and> snake st' = newHead # butlast (snake st)
             \<and> length (snake st') = length (snake st)" if "\<not> grew"
    using that call ne by (simp add: frame_OnMove_no_growth)
  have more: "\<exists>st'. frame rnd time st = Some st'
             \<and> snake st' = newHead # snake st
             \<and> length (snake st') = length (snake st) + 1"
    if h: "grew \<and> (score st + 1) mod 5 \<noteq> 0
          \<and> randomDraw rnd n BOARD_WIDTH BOARD_HEIGHT \<notin> set (newHead # snake st)"
  proof -
    from h getRandomPosition_returns[of rnd n BOARD_WIDTH BOARD_HEIGHT "newHead # snake st"]
    obtain p where "getRandomPosition rnd BOARD_WIDTH BOARD_HEIGHT (newHead # snake st) = Some p"
      by blast
    with h call show ?thesis
      by (simp add: frame_OnMove_growth)
  qed
  show ?thesis
    using playing g same more by blast
qed

theorem actor_length_witness:
  "gameLoop_call startedGame 200 = OnMove \<lparr>x = 10, y = 9\<rparr> False
   \<and> (\<exists>st'. frame rndExample 200 startedGame = Some st'
         \<and> length (snake st') = length (snake startedGame))
   \<and> gameLoop_call feedGame 200 = OnMove \<lparr>x = 10, y = 9\<rparr> True
   \<and> (score feedGame + 1) mod 5 \<noteq> 0
   \<and> randomDraw rndExample 1 BOARD_WIDTH BOARD_HEIGHT \<notin> set (\<lparr>x = 10, y = 9\<rparr> # snake feedGame)
   \<and> (\<exists>st'. frame rndExample 200 feedGame = Some st'
         \<and> length (snake st') = length (snake feedGame) + 1)"
proof -
  have nofifth: "(score feedGame + 1) mod 5 \<noteq> 0"
    by (simp add: examples)
  have draw: "randomDraw rndExample 1 BOARD_WIDTH BOARD_HEIGHT \<notin> set (\<lparr>x = 10, y = 9\<rparr> # snake feedGame)"
    using randomDraw_rndExample(2)[of 0] by (simp add: examples board)
  have a: "\<exists>st'. frame rndExample 200 startedGame = Some st'
         \<and> length (snake st') = length (snake startedGame)"
    using actor_length [OF gameLoop_call_startedGame, where rnd = rndExample and n = 0] by blast
  have b: "\<exists>st'. frame rndExample 200 feedGame = Some st'
         \<and> length (snake st') = length (snake feedGame) + 1"
    using nofifth draw actor_length [OF gameLoop_call_feedGame, where rnd = rndExample and n = 1]
    by blast
  show ?thesis
    using a b nofifth draw gameLoop_call_startedGame gameLoop_call_feedGame by blast
qed

text \<open>
  C6 as stated fails on the board with one free cell: the head moves onto the Food, so
  growth occurs, but the food sampler never returns and the frame never ends; the Actor
  is never made longer.
\<close>

theorem actor_length_counterexample:
  "status fullGame = PLAYING
   \<and> gameLoop_call fullGame 1000 = OnMove (food fullGame) True
   \<and> length (snake fullGame) = 624
   \<and> frame rndExample 1000 fullGame = None"
proof -
  have "status fullGame = PLAYING" "length (snake fullGame) = 624"
    by (simp_all add: fullGame_def del: upt_rec_numeral)
  then show ?thesis
    using gameLoop_call_fullGame frame_fullGame by blast
qed

section \<open>Growth and the new Food\<close>

text \<open>
  C5, as the code has it. A tick that is run with the candidate head on the Food cell,
  inside the board and on no segment that the loop checks, calls \<^verbatim>\<open>onMove\<close> with
  \<^verbatim>\<open>grew = true\<close>. If some draw of the food sampler lies on no segment of the grown
  Actor, the frame ends: the Score is one higher and the Food is at the first such draw,
  on no segment of the grown Actor; and when the new Score is not a multiple of 5 the
  Actor is the grown one, one segment longer.
\<close>

theorem growth_tick:
  "(deltaTime > of_int (speedRef pscore) \<and> moveHead pdirection head = pfood
      \<and> 0 \<le> x pfood \<and> x pfood < width \<and> 0 \<le> y pfood \<and> y pfood < height
      \<and> pfood \<notin> set (butlast (head # rest))
      \<longrightarrow> gameLoop_tick deltaTime pscore (head # rest) pfood pdirection width height
            = OnMove pfood True)
   \<and> (gameLoop_call st time = OnMove newHead True
      \<and> randomDraw rnd n BOARD_WIDTH BOARD_HEIGHT \<notin> set (newHead # snake st)
      \<longrightarrow> newHead = food st
        \<and> (\<exists>st'. frame rnd time st = Some st'
              \<and> score st' = score st + 1
              \<and> food st' \<notin> set (newHead # snake st)
              \<and> (\<exists>j. j \<le> n \<and> food st' = randomDraw rnd j BOARD_WIDTH BOARD_HEIGHT
                    \<and> (\<forall>i. i < j \<longrightarrow>
                          randomDraw rnd i BOARD_WIDTH BOARD_HEIGHT \<in> set (newHead # snake st)))
              \<and> ((score st + 1) mod 5 \<noteq> 0 \<longrightarrow>
                    snake st' = newHead # snake st
                    \<and> length (snake st') = length (snake st) + 1
                    \<and> food st' \<notin> set (snake st'))))"
proof -
  have a: "gameLoop_tick deltaTime pscore (head # rest) pfood pdirection width height
            = OnMove pfood True"
    if h: "deltaTime > of_int (speedRef pscore) \<and> moveHead pdirection head = pfood
      \<and> 0 \<le> x pfood \<and> x pfood < width \<and> 0 \<le> y pfood \<and> y pfood < height
      \<and> pfood \<notin> set (butlast (head # rest))"
  proof -
    from h have due: "deltaTime > of_int (speedRef pscore)"
      by simp
    from h show ?thesis
      unfolding gameLoop_tick_due[OF due] by auto
  qed
  have b: "newHead = food st
        \<and> (\<exists>st'. frame rnd time st = Some st'
              \<and> score st' = score st + 1
              \<and> food st' \<notin> set (newHead # snake st)
              \<and> (\<exists>j. j \<le> n \<and> food st' = randomDraw rnd j BOARD_WIDTH BOARD_HEIGHT
                    \<and> (\<forall>i. i < j \<longrightarrow>
                          randomDraw rnd i BOARD_WIDTH BOARD_HEIGHT \<in> set (newHead # snake st)))
              \<and> ((score st + 1) mod 5 \<noteq> 0 \<longrightarrow>
                    snake st' = newHead # snake st
                    \<and> length (snake st') = length (snake st) + 1
                    \<and> food st' \<notin> set (snake st')))"
    if h: "gameLoop_call st time = OnMove newHead True
      \<and> randomDraw rnd n BOARD_WIDTH BOARD_HEIGHT \<notin> set (newHead # snake st)"
  proof -
    from h have call: "gameLoop_call st time = OnMove newHead True"
      and draw: "randomDraw rnd n BOARD_WIDTH BOARD_HEIGHT \<notin> set (newHead # snake st)"
      by simp_all
    from gameLoop_call_OnMove[OF call] have onfood: "newHead = food st"
      by simp
    from getRandomPosition_returns[OF draw]
    obtain p j where p: "getRandomPosition rnd BOARD_WIDTH BOARD_HEIGHT (newHead # snake st) = Some p"
      and free: "p \<notin> set (newHead # snake st)"
      and j: "j \<le> n" "p = randomDraw rnd j BOARD_WIDTH BOARD_HEIGHT"
        "\<forall>i. i < j \<longrightarrow> randomDraw rnd i BOARD_WIDTH BOARD_HEIGHT \<in> set (newHead # snake st)"
      by blast
    obtain st' where st': "frame rnd time st = Some st'"
      by (simp add: frame_OnMove_growth[OF call p])
    note after = frame_OnMove[OF call st']
    from after have sc: "score st' = score st + 1"
      by simp
    from after p have fd: "food st' = p"
      by simp
    have sn: "snake st' = newHead # snake st" if "(score st + 1) mod 5 \<noteq> 0"
      using after that by simp
    have first: "\<exists>j. j \<le> n \<and> food st' = randomDraw rnd j BOARD_WIDTH BOARD_HEIGHT
        \<and> (\<forall>i. i < j \<longrightarrow> randomDraw rnd i BOARD_WIDTH BOARD_HEIGHT \<in> set (newHead # snake st))"
      unfolding fd using j by (intro exI[of _ j]) simp
    have grown: "(score st + 1) mod 5 \<noteq> 0 \<longrightarrow>
        snake st' = newHead # snake st \<and> length (snake st') = length (snake st) + 1
        \<and> food st' \<notin> set (snake st')"
      using sn fd free by simp
    have clear: "food st' \<notin> set (newHead # snake st)"
      unfolding fd by (rule free)
    have "frame rnd time st = Some st'
              \<and> score st' = score st + 1
              \<and> food st' \<notin> set (newHead # snake st)
              \<and> (\<exists>j. j \<le> n \<and> food st' = randomDraw rnd j BOARD_WIDTH BOARD_HEIGHT
                    \<and> (\<forall>i. i < j \<longrightarrow>
                          randomDraw rnd i BOARD_WIDTH BOARD_HEIGHT \<in> set (newHead # snake st)))
              \<and> ((score st + 1) mod 5 \<noteq> 0 \<longrightarrow>
                    snake st' = newHead # snake st
                    \<and> length (snake st') = length (snake st) + 1
                    \<and> food st' \<notin> set (snake st'))"
      using st' sc clear first grown by (intro conjI)
    then have "\<exists>st'. frame rnd time st = Some st'
              \<and> score st' = score st + 1
              \<and> food st' \<notin> set (newHead # snake st)
              \<and> (\<exists>j. j \<le> n \<and> food st' = randomDraw rnd j BOARD_WIDTH BOARD_HEIGHT
                    \<and> (\<forall>i. i < j \<longrightarrow>
                          randomDraw rnd i BOARD_WIDTH BOARD_HEIGHT \<in> set (newHead # snake st)))
              \<and> ((score st + 1) mod 5 \<noteq> 0 \<longrightarrow>
                    snake st' = newHead # snake st
                    \<and> length (snake st') = length (snake st) + 1
                    \<and> food st' \<notin> set (snake st'))"
      by (rule exI)
    with onfood show ?thesis
      by (rule conjI)
  qed
  show ?thesis
    by (rule conjI; rule impI) (rule a, assumption, rule b, assumption)
qed

theorem growth_tick_witness:
  "(200::real) > of_int (speedRef 0)
   \<and> gameLoop_tick 200 0 INITIAL_SNAKE \<lparr>x = 10, y = 9\<rparr> UP 25 25 = OnMove \<lparr>x = 10, y = 9\<rparr> True
   \<and> gameLoop_call feedGame 200 = OnMove \<lparr>x = 10, y = 9\<rparr> True
   \<and> randomDraw rndExample 1 BOARD_WIDTH BOARD_HEIGHT \<notin> set (\<lparr>x = 10, y = 9\<rparr> # snake feedGame)
   \<and> (score feedGame + 1) mod 5 \<noteq> 0
   \<and> (\<exists>st'. frame rndExample 200 feedGame = Some st'
        \<and> snake st' = [\<lparr>x = 10, y = 9\<rparr>, \<lparr>x = 10, y = 10\<rparr>, \<lparr>x = 10, y = 11\<rparr>, \<lparr>x = 10, y = 12\<rparr>]
        \<and> length (snake st') = length (snake feedGame) + 1
        \<and> score st' = score feedGame + 1 \<and> food st' \<notin> set (snake st'))"
proof -
  have late: "(200::real) > of_int (speedRef 0)"
    by (simp add: speedRef_def)
  have geo: "moveHead UP \<lparr>x = 10, y = 10\<rparr> = \<lparr>x = 10, y = 9\<rparr>
      \<and> 0 \<le> x \<lparr>x = 10, y = 9\<rparr> \<and> x \<lparr>x = 10, y = 9\<rparr> < (25::int)
      \<and> 0 \<le> y \<lparr>x = 10, y = 9\<rparr> \<and> y \<lparr>x = 10, y = 9\<rparr> < (25::int)
      \<and> \<lparr>x = 10, y = 9\<rparr> \<notin> set (butlast (\<lparr>x = 10, y = 10\<rparr> # [\<lparr>x = 10, y = 11\<rparr>, \<lparr>x = 10, y = 12\<rparr>]))"
    by simp
  have nofifth: "(score feedGame + 1) mod 5 \<noteq> 0"
    by (simp add: examples)
  have draw: "randomDraw rndExample 1 BOARD_WIDTH BOARD_HEIGHT \<notin> set (\<lparr>x = 10, y = 9\<rparr> # snake feedGame)"
    using randomDraw_rndExample(2)[of 0] by (simp add: examples board)
  have sn: "\<lparr>x = 10, y = 9\<rparr> # snake feedGame
      = [\<lparr>x = 10, y = 9\<rparr>, \<lparr>x = 10, y = 10\<rparr>, \<lparr>x = 10, y = 11\<rparr>, \<lparr>x = 10, y = 12\<rparr>]"
    by (simp add: examples)
  have t1: "gameLoop_tick 200 0 (\<lparr>x = 10, y = 10\<rparr> # [\<lparr>x = 10, y = 11\<rparr>, \<lparr>x = 10, y = 12\<rparr>])
      \<lparr>x = 10, y = 9\<rparr> UP 25 25 = OnMove \<lparr>x = 10, y = 9\<rparr> True"
    using late geo
      growth_tick [where deltaTime = 200 and pscore = 0 and pdirection = UP
        and head = "\<lparr>x = 10, y = 10\<rparr>" and rest = "[\<lparr>x = 10, y = 11\<rparr>, \<lparr>x = 10, y = 12\<rparr>]"
        and pfood = "\<lparr>x = 10, y = 9\<rparr>" and width = 25 and height = 25]
    by blast
  have t2: "\<exists>st'. frame rndExample 200 feedGame = Some st'
        \<and> snake st' = \<lparr>x = 10, y = 9\<rparr> # snake feedGame
        \<and> length (snake st') = length (snake feedGame) + 1
        \<and> score st' = score feedGame + 1 \<and> food st' \<notin> set (snake st')"
    using gameLoop_call_feedGame draw nofifth
      growth_tick [where st = feedGame and time = 200 and rnd = rndExample
        and newHead = "\<lparr>x = 10, y = 9\<rparr>" and n = 1]
    by blast
  show ?thesis
    using late t1 t2 draw nofifth gameLoop_call_feedGame
    unfolding sn by (simp add: INITIAL_SNAKE_def)
qed

text \<open>
  C5 as stated fails on the board with one free cell: the tick onto the Food calls
  \<^verbatim>\<open>onMove\<close> with \<^verbatim>\<open>grew = true\<close>, the grown Actor covers the board, and the sampler
  never returns, so the frame never ends.
\<close>

theorem growth_tick_counterexample:
  "status fullGame = PLAYING
   \<and> gameLoop_call fullGame 1000 = OnMove (food fullGame) True
   \<and> frame rndExample 1000 fullGame = None"
  using frame_fullGame
  by (simp add: gameLoop_call_fullGame) (simp add: fullGame_def del: upt_rec_numeral)

section \<open>The heading never reverses\<close>

text \<open>The keyboard handler in one rule: a heading key queues its heading unless it is the reverse of the
  committed one; the toggle keys start, pause or resume; any other key does nothing.\<close>

lemma handleKeyDown_eq:
  "handleKeyDown rnd key st =
     (case keyHeading key of
        Some d \<Rightarrow> Some (if direction st \<noteq> opposite d then st\<lparr>nextDirection := d\<rparr> else st)
      | None \<Rightarrow>
          if key = '' '' \<or> key = ''Enter'' then
            (if status st = IDLE \<or> status st = GAME_OVER then startGame rnd st
             else if status st = PLAYING then Some (pauseGame st)
             else Some (resumeGame st))
          else Some st)"
proof (cases "status st")
  case IDLE
  then show ?thesis by (simp add: handleKeyDown_def keyHeading_def)
next
  case PLAYING
  then show ?thesis by (simp add: handleKeyDown_def keyHeading_def)
next
  case PAUSED
  then show ?thesis by (simp add: handleKeyDown_def keyHeading_def)
next
  case GAME_OVER
  then show ?thesis by (simp add: handleKeyDown_def keyHeading_def)
qed


lemma handleKeyDown_heading:
  assumes "keyHeading key = Some d"
  shows "handleKeyDown rnd key st =
     Some (if direction st \<noteq> opposite d then st\<lparr>nextDirection := d\<rparr> else st)"
  using assms by (simp add: handleKeyDown_eq)

lemma handleKeyDown_other:
  assumes "keyHeading key = None" "key \<noteq> '' ''" "key \<noteq> ''Enter''"
  shows "handleKeyDown rnd key st = Some st"
  using assms by (simp add: handleKeyDown_eq)

lemma handleKeyDown_toggle:
  assumes "key = '' '' \<or> key = ''Enter''"
  shows "handleKeyDown rnd key st =
     (if status st = IDLE \<or> status st = GAME_OVER then startGame rnd st
      else if status st = PLAYING then Some (pauseGame st) else Some (resumeGame st))"
proof -
  have "keyHeading '' '' = None" "keyHeading ''Enter'' = None"
    by (simp_all add: keyHeading_def)
  with assms have "keyHeading key = None"
    by blast
  with assms show ?thesis
    by (simp add: handleKeyDown_eq)
qed

text \<open>
  The invariant: the queued heading is not the reverse of the committed one. An event that
  neither commits a tick nor starts a game keeps the committed heading and the invariant.
\<close>

lemma quiet_event:
  assumes "\<not> commitsTick ev st" "\<not> startsGame ev st" "dispatch rnd ev st = Some st'"
  shows "direction st' = direction st
     \<and> (nextDirection st \<noteq> opposite (direction st) \<longrightarrow> nextDirection st' \<noteq> opposite (direction st'))"
proof (cases ev)
  case (KeyDown key)
  show ?thesis
  proof (cases "keyHeading key")
    case (Some d)
    from assms(3) have "handleKeyDown rnd key st = Some st'"
      by (simp add: KeyDown dispatch_def)
    then have "st' = (if direction st \<noteq> opposite d then st\<lparr>nextDirection := d\<rparr> else st)"
      by (simp add: handleKeyDown_heading[OF Some])
    then show ?thesis
      by (cases d; cases "direction st") auto
  next
    case None
    show ?thesis
    proof (cases "key = '' '' \<or> key = ''Enter''")
      case True
      with assms(2) KeyDown have "\<not> (status st = IDLE \<or> status st = GAME_OVER)"
        by (auto simp: startsGame_def)
      moreover from assms(3) have "handleKeyDown rnd key st = Some st'"
        by (simp add: KeyDown dispatch_def)
      ultimately show ?thesis
        by (auto simp: handleKeyDown_toggle[OF True] pauseGame_def resumeGame_def split: if_splits)
    next
      case False
      with assms(3) None show ?thesis
        by (simp add: KeyDown dispatch_def handleKeyDown_other)
    qed
  qed
next
  case (AnimationFrame time)
  with assms(1,3) show ?thesis
    by (auto simp: commitsTick_def dispatch_def frame_def gameOver_def Let_def split: call.splits if_splits)
next
  case InitializeButton
  with assms(2,3) show ?thesis
    by (auto simp: startsGame_def dispatch_def split: if_splits)
next
  case HaltButton
  with assms(3) show ?thesis
    by (auto simp: dispatch_def pauseGame_def split: if_splits)
next
  case ResumeButton
  with assms(3) show ?thesis
    by (auto simp: dispatch_def resumeGame_def split: if_splits)
next
  case AbortButton
  with assms(3) show ?thesis
    by (auto simp: dispatch_def split: if_splits)
next
  case (MessageArrived i)
  with assms(3) show ?thesis
    by (auto simp: dispatch_def handleMove_resume_def split: if_splits)
qed

lemma quiet_run:
  assumes "quiet evs st" "run evs st = Some st'"
  shows "direction st' = direction st
     \<and> (nextDirection st \<noteq> opposite (direction st) \<longrightarrow> nextDirection st' \<noteq> opposite (direction st'))"
  using assms
proof (induction evs arbitrary: st)
  case Nil
  then show ?case by simp
next
  case (Cons e evs)
  obtain ev rnd where e: "e = (ev, rnd)"
    by (cases e)
  from Cons.prems(1) have nc: "\<not> commitsTick ev st" and ns: "\<not> startsGame ev st"
    unfolding e by (auto split: if_splits)
  from Cons.prems(1) nc ns obtain mid where mid: "dispatch rnd ev st = Some mid" "quiet evs mid"
    unfolding e by (auto split: option.splits)
  with Cons.prems(2) have rest: "run evs mid = Some st'"
    unfolding e by simp
  from quiet_event[OF nc ns mid(1)] Cons.IH[OF mid(2) rest] show ?case
    by auto
qed

lemma opposite_neq: "d \<noteq> opposite d"
  by (cases d) simp_all


text \<open>
  C4. Take a committed tick, then any stretch of events of the same game up to the next
  tick (key presses, button clicks, frames that commit nothing, status messages that
  arrive). The heading that the next
  tick applies, the queued heading, is not the reverse of the heading that the earlier
  tick applied. A key that asks for the reverse of the committed heading leaves the whole
  state, the queued heading included, as it is, and the handler returns normally: with
  heading UP committed and queued, a press of the down key leaves UP queued.
\<close>

theorem heading_never_reverses:
  assumes tick: "gameLoop_call st0 t0 = OnMove newHead grew"
    and commit: "frame rnd0 t0 st0 = Some st1"
    and between: "quiet evs st1"
    and reach: "run evs st1 = Some st2"
  shows "direction st2 = nextDirection st0
     \<and> nextDirection st2 \<noteq> opposite (nextDirection st0)
     \<and> (gameLoop_call st2 t = OnMove newHead' grew'
          \<longrightarrow> (\<exists>head rest. snake st2 = head # rest \<and> newHead' = moveHead (nextDirection st2) head))
     \<and> (keyHeading key = Some d \<and> d = opposite (direction st)
          \<longrightarrow> handleKeyDown rnd key st = Some st)
     \<and> (direction st = UP \<and> nextDirection st = UP
          \<longrightarrow> handleKeyDown rnd ''ArrowDown'' st = Some st
              \<and> handleKeyDown rnd ''s'' st = Some st \<and> handleKeyDown rnd ''S'' st = Some st)"
proof -
  from frame_OnMove[OF tick commit]
  have d1: "direction st1 = nextDirection st0" and n1: "nextDirection st1 = nextDirection st0"
    by simp_all
  then have "nextDirection st1 \<noteq> opposite (direction st1)"
    by (simp add: opposite_neq)
  with quiet_run[OF between reach] d1
  have a: "direction st2 = nextDirection st0" "nextDirection st2 \<noteq> opposite (nextDirection st0)"
    by auto
  have b: "\<exists>head rest. snake st2 = head # rest \<and> newHead' = moveHead (nextDirection st2) head"
    if "gameLoop_call st2 t = OnMove newHead' grew'"
    using gameLoop_call_OnMove[OF that] by blast
  have c: "handleKeyDown rnd key st = Some st" if "keyHeading key = Some d \<and> d = opposite (direction st)"
  proof -
    have "opposite (opposite h) = h" for h
      by (cases h) simp_all
    with that have "direction st = opposite d"
      by simp
    with that show ?thesis
      by (simp add: handleKeyDown_heading)
  qed
  have keys: "keyHeading ''ArrowDown'' = Some DOWN" "keyHeading ''s'' = Some DOWN"
    "keyHeading ''S'' = Some DOWN"
    by (simp_all add: keyHeading_def)
  have e: "handleKeyDown rnd ''ArrowDown'' st = Some st
      \<and> handleKeyDown rnd ''s'' st = Some st \<and> handleKeyDown rnd ''S'' st = Some st"
    if "direction st = UP \<and> nextDirection st = UP"
    using that by (simp add: handleKeyDown_heading[OF keys(1)] handleKeyDown_heading[OF keys(2)]
        handleKeyDown_heading[OF keys(3)])
  show ?thesis
    using a b c e by blast
qed


lemma run_quietEvents:
  "quiet quietEvents movedGame
   \<and> run quietEvents movedGame = Some (movedGame\<lparr>nextDirection := LEFT\<rparr>)"
proof -
  have keys: "keyHeading ''ArrowDown'' = Some DOWN" "keyHeading ''ArrowLeft'' = Some LEFT"
    by (simp_all add: keyHeading_def)
  have k1: "dispatch rnd (KeyDown ''ArrowDown'') movedGame = Some movedGame" for rnd
    by (simp add: dispatch_def handleKeyDown_heading[OF keys(1)]) (simp add: movedGame_def examples)
  have k2: "dispatch rnd (KeyDown ''ArrowLeft'') movedGame = Some (movedGame\<lparr>nextDirection := LEFT\<rparr>)" for rnd
    by (simp add: dispatch_def handleKeyDown_heading[OF keys(2)]) (simp add: movedGame_def examples)
  have wait: "gameLoop_call (movedGame\<lparr>nextDirection := LEFT\<rparr>) 250 = NotDue"
    by (simp add: gameLoop_call_def movedGame_def examples gameLoop_not_due speedRef_def)
  have f: "dispatch rnd (AnimationFrame 250) (movedGame\<lparr>nextDirection := LEFT\<rparr>)
      = Some (movedGame\<lparr>nextDirection := LEFT\<rparr>)" for rnd
    by (simp add: dispatch_def frame_def wait)
  have p: "dispatch rnd (KeyDown ''Enter'') (movedGame\<lparr>nextDirection := LEFT\<rparr>)
      = Some (movedGame\<lparr>nextDirection := LEFT, status := PAUSED\<rparr>)" for rnd
    by (simp add: dispatch_def handleKeyDown_toggle pauseGame_def) (simp add: movedGame_def examples)
  have r: "dispatch rnd (KeyDown ''Enter'') (movedGame\<lparr>nextDirection := LEFT, status := PAUSED\<rparr>)
      = Some (movedGame\<lparr>nextDirection := LEFT\<rparr>)" for rnd
    by (simp add: dispatch_def handleKeyDown_toggle resumeGame_def) (simp add: movedGame_def examples)
  have playing: "status movedGame = PLAYING"
    by (simp add: movedGame_def examples)
  show ?thesis
    by (simp add: quietEvents_def k1 k2 f p r commitsTick_def startsGame_def wait playing)
qed

theorem heading_never_reverses_witness:
  "gameLoop_call startedGame 200 = OnMove \<lparr>x = 10, y = 9\<rparr> False
   \<and> frame rndExample 200 startedGame = Some movedGame
   \<and> quiet quietEvents movedGame
   \<and> run quietEvents movedGame = Some (movedGame\<lparr>nextDirection := LEFT\<rparr>)
   \<and> nextDirection startedGame = UP
   \<and> nextDirection (movedGame\<lparr>nextDirection := LEFT\<rparr>) \<noteq> opposite (nextDirection startedGame)
   \<and> keyHeading ''ArrowDown'' = Some DOWN \<and> direction movedGame = UP
   \<and> handleKeyDown rndExample ''ArrowDown'' movedGame = Some movedGame"
proof -
  have commit: "frame rndExample 200 startedGame = Some movedGame"
    by (simp add: frame_startedGame movedGame_def)
  have key: "keyHeading ''ArrowDown'' = Some DOWN \<and> DOWN = opposite (direction movedGame)"
    by (simp add: keyHeading_def movedGame_def examples)
  have up: "direction movedGame = UP \<and> nextDirection movedGame = UP" "nextDirection startedGame = UP"
    by (simp_all add: movedGame_def examples)
  show ?thesis
    using commit key up run_quietEvents
      heading_never_reverses [OF gameLoop_call_startedGame commit
        conjunct1 [OF run_quietEvents] conjunct2 [OF run_quietEvents],
        where key = "''ArrowDown''" and d = DOWN and st = movedGame and rnd = rndExample]
    by (simp add: gameLoop_call_startedGame)
qed

end
